theory Spec2Isabelle
  imports Complex_Main "HOL-Library.Multiset"
begin

section \<open>Python values, errors and built-ins used by the controller\<close>

text \<open>
  The controller of \<^verbatim>\<open>src/src/memetic.py\<close> is a Python function over a dictionary of
  parameters, lists of schedules and a handful of collaborators imported from other
  modules. Exceptions are values: a function that can raise returns \<open>error + 'a\<close>,
  with \<open>Inl\<close> for the exception. A float is the real number it denotes. The product
  \<^verbatim>\<open>len(population) * preserved_prop\<close>, whose integer part is the number of
  schedules a restart keeps, is rounded as Python rounds it; the sums and the comparison
  of the loop condition are taken exactly. Infinities, NaN and \<^verbatim>\<open>OverflowError\<close> are
  outside the model. A Python \<open>bool\<close> stored in the parameter dictionary is the
  number 0 or 1, as in Python itself, and its truth value is \<open>\<noteq> 0\<close>.
\<close>

datatype error =
    KeyError string   \<comment> \<open>\<^verbatim>\<open>parameters[key]\<close> with a missing key\<close>
  | ValueError        \<comment> \<open>\<^verbatim>\<open>min\<close> of an empty sequence\<close>
  | IndexError        \<comment> \<open>\<^verbatim>\<open>xs[0]\<close> on an empty list\<close>

definition and_then :: "error + 'a \<Rightarrow> ('a \<Rightarrow> error + 'b) \<Rightarrow> error + 'b" where
  "and_then m f = (case m of Inl e \<Rightarrow> Inl e | Inr x \<Rightarrow> f x)"

type_synonym parameters = "string \<rightharpoonup> real"

definition getitem :: "parameters \<Rightarrow> string \<Rightarrow> error + real" where
  "getitem parameters key =
     (case parameters key of None \<Rightarrow> Inl (KeyError key) | Some v \<Rightarrow> Inr v)"

definition py_int :: "real \<Rightarrow> int" where
  \<comment> \<open>\<^verbatim>\<open>int(x)\<close> on a float: truncation towards zero\<close>
  "py_int x = (if 0 \<le> x then \<lfloor>x\<rfloor> else \<lceil>x\<rceil>)"

text \<open>
  Python's floats are IEEE 754 binary64 numbers: 53 significant bits, and a result is
  the representable number nearest to the exact one, the one with an even last bit when
  two are equally near. \<open>bit_length n\<close> is \<^verbatim>\<open>n.bit_length()\<close>; \<open>binade x\<close> is the
  exponent \<open>e\<close> with \<open>2 ^ e \<le> x < 2 ^ (e + 1)\<close>, for \<open>x > 0\<close>; the spacing of the
  floats around \<open>x\<close> is \<open>2 ^ (e - 52)\<close>, and \<open>2 ^ (- 1074)\<close> below the normal range.
  \<open>py_mul_int_float n x\<close> is \<^verbatim>\<open>n * x\<close> for an \<^verbatim>\<open>int\<close> and a \<^verbatim>\<open>float\<close>: the integer
  is converted to a float, then the product is rounded.
\<close>

fun bit_length :: "nat \<Rightarrow> nat" where
  "bit_length n = (if n = 0 then 0 else Suc (bit_length (n div 2)))"

declare bit_length.simps [simp del]

definition pow2 :: "int \<Rightarrow> real" where
  "pow2 j = (if 0 \<le> j then 2 ^ nat j else 1 / 2 ^ nat (- j))"

definition binade :: "real \<Rightarrow> int" where
  "binade x = (if 1 \<le> x then int (bit_length (nat \<lfloor>x\<rfloor>)) - 1
               else - int (bit_length (nat (\<lceil>1 / x\<rceil> - 1))))"

definition round_half_even :: "real \<Rightarrow> int" where
  "round_half_even q =
     (let f = \<lfloor>q\<rfloor>; d = q - of_int f
      in if d < 1 / 2 then f else if 1 / 2 < d then f + 1
         else if even f then f else f + 1)"

definition round64 :: "real \<Rightarrow> real" where
  "round64 x =
     (if x = 0 then 0
      else let u = pow2 (max (binade \<bar>x\<bar> - 52) (- 1074))
           in sgn x * of_int (round_half_even (\<bar>x\<bar> / u)) * u)"

definition py_mul_int_float :: "int \<Rightarrow> real \<Rightarrow> real" where
  "py_mul_int_float n x = round64 (round64 (of_int n) * x)"

definition py_slice_to :: "'a list \<Rightarrow> int \<Rightarrow> 'a list" where
  \<comment> \<open>\<^verbatim>\<open>xs[:k]\<close>: a negative \<open>k\<close> counts from the end\<close>
  "py_slice_to xs k =
     (if 0 \<le> k then take (nat k) xs else take (nat (int (length xs) + k)) xs)"

fun min_from :: "('a \<Rightarrow> real) \<Rightarrow> 'a \<Rightarrow> 'a list \<Rightarrow> 'a" where
  "min_from key b [] = b"
| "min_from key b (y # ys) = min_from key (if key y < key b then y else b) ys"

definition py_min_key :: "('a \<Rightarrow> real) \<Rightarrow> 'a list \<Rightarrow> error + 'a" where
  \<comment> \<open>\<^verbatim>\<open>min(xs, key=key)\<close>: the first element of least key; raises on an empty list\<close>
  "py_min_key key xs = (case xs of [] \<Rightarrow> Inl ValueError | x # ys \<Rightarrow> Inr (min_from key x ys))"

section \<open>The collaborators\<close>

text \<open>
  The operators live in modules that are imported by \<^verbatim>\<open>memetic.py\<close>: they are
  parameters of the model. A collaborator that draws random numbers or reads the clock
  takes the state of the outside world \<open>'w\<close> and returns the new one. Schedules
  \<open>'s\<close>, the flow-shop instance \<open>'f\<close>, the neighbour tables \<open>'n\<close> and the
  entropy threshold \<open>'t\<close> are opaque. A statistics entry is the triple
  (mean, min, max) returned by \<^verbatim>\<open>population_statistics\<close>.
\<close>

type_synonym statistics = "real \<times> real \<times> real"

record ('s, 'f, 'w, 'n, 't) collaborators =
  duree :: "'s \<Rightarrow> real"
  time_time :: "'w \<Rightarrow> real \<times> 'w"
  create_swap_neighbors :: "'f \<Rightarrow> 'n"
  create_insert_neighbors :: "'f \<Rightarrow> 'n"
  initialize_threshold :: "real \<Rightarrow> 't"
  initial_pop :: "'f \<Rightarrow> real \<Rightarrow> real \<Rightarrow> real \<Rightarrow> real \<Rightarrow> 'w \<Rightarrow> 's list \<times> 'w"
  population_statistics :: "'s list \<Rightarrow> statistics"
  crossover :: "'f \<Rightarrow> 's list \<Rightarrow> real \<Rightarrow> real \<Rightarrow> real \<Rightarrow> real \<Rightarrow> 'w \<Rightarrow> 's list \<times> 'w"
  mutation :: "'f \<Rightarrow> 's list \<Rightarrow> real \<Rightarrow> real \<Rightarrow> 'w \<Rightarrow> 's list \<times> 'w"
  local_search ::
    "'s list \<Rightarrow> real \<Rightarrow> real \<Rightarrow> real \<Rightarrow> real \<Rightarrow> 'n \<Rightarrow> 'n \<Rightarrow> real \<Rightarrow> 'w \<Rightarrow> 's list \<times> 'w"
  is_convergent :: "'s list \<Rightarrow> 't \<Rightarrow> bool"
  random_initial_pop :: "'f \<Rightarrow> int \<Rightarrow> 'w \<Rightarrow> 's list \<times> 'w"

section \<open>\<^verbatim>\<open>src/src/memetic.py\<close>\<close>

subsection \<open>\<^verbatim>\<open>update_population\<close>\<close>

definition update_population ::
  "('s, 'f, 'w, 'n, 't) collaborators \<Rightarrow> 's list \<Rightarrow> 'f \<Rightarrow> parameters \<Rightarrow> 'n \<Rightarrow> 'n \<Rightarrow> 'w
     \<Rightarrow> error + ('s list \<times> 'w)" where
  "update_population c population flowshop parameters swap_neighbors insert_neighbors w =
     and_then (getitem parameters ''cross_1_point_prob'') (\<lambda>cross_1_point_prob.
     and_then (getitem parameters ''cross_2_points_prob'') (\<lambda>cross_2_points_prob.
     and_then (getitem parameters ''cross_position_prob'') (\<lambda>cross_position_prob.
     and_then (getitem parameters ''gentrification'') (\<lambda>gentrification.
     case crossover c flowshop population cross_1_point_prob cross_2_points_prob
            cross_position_prob gentrification w of (population1, w1) \<Rightarrow>
     and_then (getitem parameters ''mut_swap_prob'') (\<lambda>mut_swap_prob.
     and_then (getitem parameters ''mut_insert_prob'') (\<lambda>mut_insert_prob.
     case mutation c flowshop population1 mut_swap_prob mut_insert_prob w1 of
       (population2, w2) \<Rightarrow>
     and_then (getitem parameters ''use_ls'') (\<lambda>use_ls.
     if use_ls \<noteq> 0 then
       and_then (getitem parameters ''ls_max_iterations'') (\<lambda>ls_max_iterations.
       and_then (getitem parameters ''ls_swap_prob'') (\<lambda>ls_swap_prob.
       and_then (getitem parameters ''ls_insert_prob'') (\<lambda>ls_insert_prob.
       and_then (getitem parameters ''max_neighbors_nb'') (\<lambda>max_neighbors_nb.
       and_then (getitem parameters ''ls_subset_size'') (\<lambda>ls_subset_size.
       Inr (local_search c population2 ls_max_iterations ls_swap_prob ls_insert_prob
              max_neighbors_nb swap_neighbors insert_neighbors ls_subset_size w2))))))
     else Inr (population2, w2))))))))"

subsection \<open>\<^verbatim>\<open>extract_best_from_population\<close> and \<^verbatim>\<open>restart_population\<close>\<close>

text \<open>
  Python's \<^verbatim>\<open>sorted\<close> is a stable sort by key, as \<^const>\<open>sort_key\<close> is.
\<close>

definition extract_best_from_population ::
  "('s, 'f, 'w, 'n, 't) collaborators \<Rightarrow> 's list \<Rightarrow> int \<Rightarrow> 's list" where
  "extract_best_from_population c population preserved_size =
     (let sorted_list = sort_key (duree c) population
      in py_slice_to sorted_list preserved_size)"

definition restart_population ::
  "('s, 'f, 'w, 'n, 't) collaborators \<Rightarrow> 's list \<Rightarrow> 'f \<Rightarrow> real \<Rightarrow> 'w \<Rightarrow> 's list \<times> 'w" where
  "restart_population c population flowshop preserved_prop w =
     (let preserved_size =
            py_int (py_mul_int_float (int (length population)) preserved_prop);
          random_size = int (length population) - preserved_size
      in case random_initial_pop c flowshop random_size w of (fresh, w') \<Rightarrow>
           (extract_best_from_population c population preserved_size @ fresh, w'))"

subsection \<open>\<^verbatim>\<open>memetic_heuristic\<close>\<close>

text \<open>
  The stagnation condition of lines 111 to 113: the history holds more than nine entries,
  the last recorded restart is at least ten generations old, and the least and the
  greatest of the min components of the last ten entries are equal. Python's \<^verbatim>\<open>and\<close>
  evaluates the window only when the first two conjuncts hold, so \<^verbatim>\<open>min\<close> and
  \<^verbatim>\<open>max\<close> never see an empty list.
\<close>

definition stat_window :: "statistics list \<Rightarrow> real list" where
  "stat_window list_statistics =
     map (\<lambda>k. fst (snd (list_statistics ! k)))
       [nat (max 0 (int (length list_statistics) - 10)) ..< length list_statistics]"

definition stagnation :: "statistics list \<Rightarrow> int list \<Rightarrow> int \<Rightarrow> bool" where
  "stagnation list_statistics iterations_where_restart index =
     (length list_statistics > 9 \<and>
      (iterations_where_restart = [] \<or> index \<ge> last iterations_where_restart + 10) \<and>
      Min (set (stat_window list_statistics)) = Max (set (stat_window list_statistics)))"

record ('s, 'w) loop_state =
  population :: "'s list"
  list_statistics :: "statistics list"
  overall_best_scheduling :: "'s"
  iterations_where_restart :: "int list"
  index :: int
  iteration_time :: real
  world :: 'w

text \<open>The loop condition of line 98: it reads the clock, then the time limit.\<close>

definition loop_test ::
  "('s, 'f, 'w, 'n, 't) collaborators \<Rightarrow> parameters \<Rightarrow> real \<Rightarrow> ('s, 'w) loop_state
     \<Rightarrow> error + (bool \<times> 'w)" where
  "loop_test c parameters start_time s =
     (case time_time c (world s) of (now, w) \<Rightarrow>
      and_then (getitem parameters ''time_limit'') (\<lambda>time_limit.
      Inr (now - start_time + iteration_time s + 1 < 60 * time_limit, w)))"

text \<open>
  The first half of the loop body, lines 99 to 114: the operator pipeline, the best
  schedule, the statistics entry and the stagnation flag \<^verbatim>\<open>restart\<close>. It returns
  the clock reading \<^verbatim>\<open>start_time_iteration\<close>, the flag and the state.
\<close>

definition generation_front ::
  "('s, 'f, 'w, 'n, 't) collaborators \<Rightarrow> 'f \<Rightarrow> parameters \<Rightarrow> 'n \<Rightarrow> 'n \<Rightarrow>
     ('s, 'w) loop_state \<Rightarrow> error + (real \<times> bool \<times> ('s, 'w) loop_state)" where
  "generation_front c flowshop parameters swap_neighbors insert_neighbors s =
     (let index' = index s + 1 in
      case time_time c (world s) of (start_time_iteration, w0) \<Rightarrow>
      and_then (update_population c (population s) flowshop parameters
                  swap_neighbors insert_neighbors w0) (\<lambda>(population', w1).
      and_then (py_min_key (duree c) population') (\<lambda>best_sched.
      let overall_best' =
            (if duree c (overall_best_scheduling s) > duree c best_sched then best_sched
             else overall_best_scheduling s);
          statistics = population_statistics c population';
          list_statistics' = list_statistics s @ [statistics];
          restart = stagnation list_statistics' (iterations_where_restart s) index'
      in Inr (start_time_iteration, restart,
              s\<lparr>population := population', list_statistics := list_statistics',
                overall_best_scheduling := overall_best', index := index',
                world := w1\<rparr>))))"

text \<open>
  The second half, lines 116 to 121: the restart, when the population is convergent or
  the flag is set, and the measure of the generation's duration.
\<close>

definition generation_back ::
  "('s, 'f, 'w, 'n, 't) collaborators \<Rightarrow> 'f \<Rightarrow> parameters \<Rightarrow> 't \<Rightarrow>
     real \<times> bool \<times> ('s, 'w) loop_state \<Rightarrow> error + ('s, 'w) loop_state" where
  "generation_back c flowshop parameters entropy_threshold m =
     (case m of (start_time_iteration, restart, s) \<Rightarrow>
      and_then
        (if is_convergent c (population s) entropy_threshold \<or> restart then
           and_then (getitem parameters ''preserved_prop'') (\<lambda>preserved_prop.
           case restart_population c (population s) flowshop preserved_prop (world s) of
             (population', w) \<Rightarrow>
               Inr (s\<lparr>iterations_where_restart := iterations_where_restart s @ [index s],
                      population := population', world := w\<rparr>))
         else Inr s) (\<lambda>s1.
      case time_time c (world s1) of (now, w) \<Rightarrow>
        Inr (s1\<lparr>iteration_time := now - start_time_iteration, world := w\<rparr>)))"

definition generation ::
  "('s, 'f, 'w, 'n, 't) collaborators \<Rightarrow> 'f \<Rightarrow> parameters \<Rightarrow> 'n \<Rightarrow> 'n \<Rightarrow> 't \<Rightarrow>
     ('s, 'w) loop_state \<Rightarrow> error + ('s, 'w) loop_state" where
  "generation c flowshop parameters swap_neighbors insert_neighbors entropy_threshold s =
     and_then (generation_front c flowshop parameters swap_neighbors insert_neighbors s)
       (generation_back c flowshop parameters entropy_threshold)"

text \<open>
  The \<^verbatim>\<open>while\<close> loop. Nothing bounds the number of generations but the clock, which
  is a collaborator: the loop is a partial function, and \<open>None\<close> is a run that never
  returns.
\<close>

partial_function (option) memetic_loop ::
  "('s, 'f, 'w, 'n, 't) collaborators \<Rightarrow> 'f \<Rightarrow> parameters \<Rightarrow> 'n \<Rightarrow> 'n \<Rightarrow> 't \<Rightarrow> real \<Rightarrow>
     ('s, 'w) loop_state \<Rightarrow> (error + ('s, 'w) loop_state) option" where
  "memetic_loop c flowshop parameters swap_neighbors insert_neighbors entropy_threshold
       start_time s =
     (case loop_test c parameters start_time s of
        Inl e \<Rightarrow> Some (Inl e)
      | Inr (continue, w) \<Rightarrow>
          if continue then
            (case generation c flowshop parameters swap_neighbors insert_neighbors
                    entropy_threshold (s\<lparr>world := w\<rparr>) of
               Inl e \<Rightarrow> Some (Inl e)
             | Inr s' \<Rightarrow> memetic_loop c flowshop parameters swap_neighbors insert_neighbors
                          entropy_threshold start_time s')
          else Some (Inr (s\<lparr>world := w\<rparr>)))"

text \<open>Lines 83 to 97: everything before the loop.\<close>

definition initial_state ::
  "('s, 'f, 'w, 'n, 't) collaborators \<Rightarrow> 'f \<Rightarrow> parameters \<Rightarrow> 'w \<Rightarrow>
     error + ('t \<times> ('s, 'w) loop_state)" where
  "initial_state c flowshop parameters w =
     and_then (getitem parameters ''pop_init_size'') (\<lambda>pop_init_size.
     let entropy_threshold = initialize_threshold c pop_init_size in
     and_then (getitem parameters ''random_prop'') (\<lambda>random_prop.
     and_then (getitem parameters ''deter_prop'') (\<lambda>deter_prop.
     and_then (getitem parameters ''best_deter'') (\<lambda>best_deter.
     and_then (getitem parameters ''pop_init_size'') (\<lambda>pop_init_size'.
     case initial_pop c flowshop random_prop deter_prop best_deter pop_init_size' w of
       (population0, w1) \<Rightarrow>
     let initial_statistics = population_statistics c population0 in
     and_then (py_min_key (duree c) population0) (\<lambda>overall_best.
     Inr (entropy_threshold,
          \<lparr>population = population0, list_statistics = [initial_statistics],
           overall_best_scheduling = overall_best, iterations_where_restart = [],
           index = 0, iteration_time = 0, world = w1\<rparr>)))))))"

definition memetic_heuristic ::
  "('s, 'f, 'w, 'n, 't) collaborators \<Rightarrow> 'f \<Rightarrow> parameters \<Rightarrow> 'w \<Rightarrow>
     (error + (statistics list \<times> 's \<times> int list)) option" where
  "memetic_heuristic c flowshop parameters w =
     (case time_time c w of (start_time, w0) \<Rightarrow>
      let swap_neighbors = create_swap_neighbors c flowshop;
          insert_neighbors = create_insert_neighbors c flowshop
      in (case initial_state c flowshop parameters w0 of
            Inl e \<Rightarrow> Some (Inl e)
          | Inr (entropy_threshold, s0) \<Rightarrow>
              (case memetic_loop c flowshop parameters swap_neighbors insert_neighbors
                      entropy_threshold start_time s0 of
                 None \<Rightarrow> None
               | Some (Inl e) \<Rightarrow> Some (Inl e)
               | Some (Inr s) \<Rightarrow>
                   Some (Inr (list_statistics s, overall_best_scheduling s,
                              iterations_where_restart s)))))"

text \<open>
  One pass of the loop from its head: the test holds and the generation completes.
  \<open>generations g s\<close> is the state at the loop head once \<open>g\<close> more generations have
  completed from \<open>s\<close>, when the run gets that far.
\<close>

definition loop_step ::
  "('s, 'f, 'w, 'n, 't) collaborators \<Rightarrow> 'f \<Rightarrow> parameters \<Rightarrow> 'n \<Rightarrow> 'n \<Rightarrow> 't \<Rightarrow> real \<Rightarrow>
     ('s, 'w) loop_state \<Rightarrow> ('s, 'w) loop_state option" where
  "loop_step c flowshop parameters swap_neighbors insert_neighbors entropy_threshold
       start_time s =
     (case loop_test c parameters start_time s of
        Inl e \<Rightarrow> None
      | Inr (continue, w) \<Rightarrow>
          if continue then
            (case generation c flowshop parameters swap_neighbors insert_neighbors
                    entropy_threshold (s\<lparr>world := w\<rparr>) of
               Inl e \<Rightarrow> None
             | Inr s' \<Rightarrow> Some s')
          else None)"

fun generations ::
  "('s, 'f, 'w, 'n, 't) collaborators \<Rightarrow> 'f \<Rightarrow> parameters \<Rightarrow> 'n \<Rightarrow> 'n \<Rightarrow> 't \<Rightarrow> real \<Rightarrow>
     nat \<Rightarrow> ('s, 'w) loop_state \<Rightarrow> ('s, 'w) loop_state option" where
  "generations c flowshop parameters swap_neighbors insert_neighbors entropy_threshold
       start_time 0 s = Some s"
| "generations c flowshop parameters swap_neighbors insert_neighbors entropy_threshold
       start_time (Suc g) s =
     (case loop_step c flowshop parameters swap_neighbors insert_neighbors
             entropy_threshold start_time s of
        None \<Rightarrow> None
      | Some s' \<Rightarrow> generations c flowshop parameters swap_neighbors insert_neighbors
                    entropy_threshold start_time g s')"

section \<open>\<^verbatim>\<open>src/memetic.py\<close>, the first version of the controller\<close>

text \<open>
  The names of this file that clash with those of \<^verbatim>\<open>src/src/memetic.py\<close> carry the
  suffix \<open>0\<close>. Its operators take no parameters, and its time limit is the constant
  \<^verbatim>\<open>60 * 10\<close>.
\<close>

record ('s, 'f, 'w) collaborators0 =
  duree0 :: "'s \<Rightarrow> real"
  time_time0 :: "'w \<Rightarrow> real \<times> 'w"
  nombre_machines :: "'f \<Rightarrow> int"
  Ordonnancement :: "int \<Rightarrow> 's"
  random_initial_pop0 :: "'f \<Rightarrow> 'w \<Rightarrow> 's list \<times> 'w"
  crossing :: "'f \<Rightarrow> 's list \<Rightarrow> 'w \<Rightarrow> 's list \<times> 'w"
  mutation0 :: "'s list \<Rightarrow> 'w \<Rightarrow> 's list \<times> 'w"
  local_search0 :: "'s list \<Rightarrow> 'w \<Rightarrow> 's list \<times> 'w"

definition find_best_ordo_in_list :: "('s \<Rightarrow> real) \<Rightarrow> 's list \<Rightarrow> error + 's" where
  "find_best_ordo_in_list key list_ordo =
     (case list_ordo of
        [] \<Rightarrow> Inl IndexError
      | best_ordo # _ \<Rightarrow> Inr (min_from key best_ordo list_ordo))"

record ('s, 'w) loop_state0 =
  population0 :: "'s list"
  best_ordo :: "'s"
  iteration_time0 :: real
  world0 :: 'w

definition loop_test0 ::
  "('s, 'f, 'w) collaborators0 \<Rightarrow> real \<Rightarrow> ('s, 'w) loop_state0 \<Rightarrow> bool \<times> 'w" where
  "loop_test0 c start_time s =
     (case time_time0 c (world0 s) of (now, w) \<Rightarrow>
        (now - start_time + iteration_time0 s < 60 * 10, w))"

definition generation0 ::
  "('s, 'f, 'w) collaborators0 \<Rightarrow> 'f \<Rightarrow> ('s, 'w) loop_state0 \<Rightarrow> error + ('s, 'w) loop_state0" where
  "generation0 c flowshop s =
     (case time_time0 c (world0 s) of (start_time_iteration, w0) \<Rightarrow>
      case crossing c flowshop (population0 s) w0 of (population1, w1) \<Rightarrow>
      case mutation0 c population1 w1 of (population2, w2) \<Rightarrow>
      case local_search0 c population2 w2 of (population3, w3) \<Rightarrow>
      and_then (find_best_ordo_in_list (duree0 c) population3) (\<lambda>best.
      case time_time0 c w3 of (now, w4) \<Rightarrow>
        Inr \<lparr>population0 = population3, best_ordo = best,
             iteration_time0 = now - start_time_iteration, world0 = w4\<rparr>))"

partial_function (option) memetic_loop0 ::
  "('s, 'f, 'w) collaborators0 \<Rightarrow> 'f \<Rightarrow> real \<Rightarrow> ('s, 'w) loop_state0 \<Rightarrow>
     (error + ('s, 'w) loop_state0) option" where
  "memetic_loop0 c flowshop start_time s =
     (case loop_test0 c start_time s of (continue, w) \<Rightarrow>
        if continue then
          (case generation0 c flowshop (s\<lparr>world0 := w\<rparr>) of
             Inl e \<Rightarrow> Some (Inl e)
           | Inr s' \<Rightarrow> memetic_loop0 c flowshop start_time s')
        else Some (Inr (s\<lparr>world0 := w\<rparr>)))"

definition memetic_heuristic0 ::
  "('s, 'f, 'w) collaborators0 \<Rightarrow> 'f \<Rightarrow> 'w \<Rightarrow> (error + 's) option" where
  "memetic_heuristic0 c flowshop w =
     (case time_time0 c w of (start_time, w0) \<Rightarrow>
      let best = Ordonnancement c (nombre_machines c flowshop) in
      case random_initial_pop0 c flowshop w0 of (initial_population, w1) \<Rightarrow>
        (case memetic_loop0 c flowshop start_time
                \<lparr>population0 = initial_population, best_ordo = best, iteration_time0 = 0,
                 world0 = w1\<rparr> of
           None \<Rightarrow> None
         | Some (Inl e) \<Rightarrow> Some (Inl e)
         | Some (Inr s) \<Rightarrow> Some (Inr (best_ordo s))))"

text \<open>
  The restart indices recorded so far are strictly increasing and none is beyond the
  current generation index.
\<close>

definition restart_inv :: "('s, 'w) loop_state \<Rightarrow> bool" where
  "restart_inv s \<longleftrightarrow> sorted_wrt (<) (iterations_where_restart s) \<and>
     (\<forall>r \<in> set (iterations_where_restart s). r \<le> index s)"

section \<open>Test doubles\<close>

text \<open>
  Concrete collaborators on which the theorems below are exercised. A schedule is its
  own duration, the world is the number of clock readings so far. In \<open>stub\<close> every
  reading advances the clock by 30 seconds, the operators return the population they
  are given, and a freshly drawn individual has duration 900.
\<close>

definition stub_statistics :: "nat list \<Rightarrow> statistics" where
  "stub_statistics pop =
     (sum_list (map real pop) / real (length pop),
      Min (set (map real pop)), Max (set (map real pop)))"

definition stub :: "bool \<Rightarrow> (nat, unit, nat, unit, unit) collaborators" where
  "stub conv =
     \<lparr>duree = real,
      time_time = (\<lambda>w. (30 * real w, Suc w)),
      create_swap_neighbors = (\<lambda>_. ()),
      create_insert_neighbors = (\<lambda>_. ()),
      initialize_threshold = (\<lambda>_. ()),
      initial_pop = (\<lambda>_ _ _ _ size w. (map (\<lambda>i. 500 + i) [0 ..< nat \<lfloor>size\<rfloor>], w)),
      population_statistics = stub_statistics,
      crossover = (\<lambda>_ pop _ _ _ _ w. (pop, w)),
      mutation = (\<lambda>_ pop _ _ w. (pop, w)),
      local_search = (\<lambda>pop _ _ _ _ _ _ _ w. (pop, w)),
      is_convergent = (\<lambda>_ _. conv),
      random_initial_pop = (\<lambda>_ n w. (replicate (nat n) 900, w))\<rparr>"

definition stub_parameters :: "real \<Rightarrow> parameters" where
  "stub_parameters minutes =
     [''random_prop'' \<mapsto> 1, ''deter_prop'' \<mapsto> 0, ''best_deter'' \<mapsto> 0,
      ''pop_init_size'' \<mapsto> 2, ''time_limit'' \<mapsto> minutes,
      ''cross_1_point_prob'' \<mapsto> 1/3, ''cross_2_points_prob'' \<mapsto> 1/3,
      ''cross_position_prob'' \<mapsto> 1/3, ''gentrification'' \<mapsto> 0,
      ''mut_swap_prob'' \<mapsto> 1/2, ''mut_insert_prob'' \<mapsto> 1/2,
      ''preserved_prop'' \<mapsto> 1/2, ''ls_max_iterations'' \<mapsto> 5,
      ''ls_swap_prob'' \<mapsto> 1/2, ''ls_insert_prob'' \<mapsto> 1/2,
      ''max_neighbors_nb'' \<mapsto> 5, ''use_ls'' \<mapsto> 1, ''ls_subset_size'' \<mapsto> 1]"

text \<open>
  In \<open>stub0\<close>, for \<^verbatim>\<open>src/memetic.py\<close>, every reading advances the clock by 119.9
  seconds and the mutation makes every schedule one unit longer.
\<close>

definition stub0 :: "(nat, unit, nat) collaborators0" where
  "stub0 =
     \<lparr>duree0 = real,
      time_time0 = (\<lambda>w. (1199 / 10 * real w, Suc w)),
      nombre_machines = (\<lambda>_. 3),
      Ordonnancement = (\<lambda>_. 0),
      random_initial_pop0 = (\<lambda>_ w. ([500, 501], w)),
      crossing = (\<lambda>_ pop w. (pop, w)),
      mutation0 = (\<lambda>pop w. (map Suc pop, w)),
      local_search0 = (\<lambda>pop w. (pop, w))\<rparr>"

section \<open>Rounding\<close>

lemma bit_length_0 [simp]: "bit_length 0 = 0"
  by (simp add: bit_length.simps)

lemma bit_length_Suc_0 [simp]: "bit_length (Suc 0) = Suc 0"
  by (subst bit_length.simps) simp

lemma bit_length_numeral:
  "bit_length (numeral k) = Suc (bit_length (numeral k div 2))"
  by (subst bit_length.simps) simp

lemma pow2_pos: "0 < pow2 j"
  by (simp add: pow2_def)

lemma pow2_nonpos: "j \<le> 0 \<Longrightarrow> pow2 j = 1 / 2 ^ nat (- j)"
  by (auto simp: pow2_def)

lemma round_half_even_ge: "of_int m \<le> q \<Longrightarrow> m \<le> round_half_even q"
proof -
  assume "of_int m \<le> q"
  then have "m \<le> \<lfloor>q\<rfloor>" by (simp add: le_floor_iff)
  then show ?thesis by (auto simp: round_half_even_def Let_def)
qed

lemma round_half_even_le: "q \<le> of_int m \<Longrightarrow> round_half_even q \<le> m"
proof (cases "q = of_int m")
  case True
  then show ?thesis by (simp add: round_half_even_def)
next
  case False
  assume "q \<le> of_int m"
  with False have "q < of_int m" by simp
  then have "\<lfloor>q\<rfloor> < m" by (simp add: floor_less_iff)
  then show ?thesis by (auto simp: round_half_even_def Let_def)
qed

lemma bit_length_le: "n < 2 ^ k \<Longrightarrow> bit_length n \<le> k"
proof (induction k arbitrary: n)
  case 0
  then show ?case by simp
next
  case (Suc k)
  show ?case
  proof (cases "n = 0")
    case True
    then show ?thesis by simp
  next
    case False
    from Suc.prems have "n div 2 < 2 ^ k" by auto
    from Suc.IH[OF this] False show ?thesis
      by (subst bit_length.simps) simp
  qed
qed

lemma bit_length_bounds:
  "0 < n \<Longrightarrow> 2 ^ (bit_length n - 1) \<le> n \<and> n < 2 ^ bit_length n"
proof (induction n rule: bit_length.induct)
  case (1 n)
  show ?case
  proof (cases "n div 2 = 0")
    case True
    with 1(2) have "n = 1" by (auto simp: div_eq_0_iff)
    then show ?thesis by simp
  next
    case False
    with 1 have ih: "2 ^ (bit_length (n div 2) - 1) \<le> n div 2"
      "n div 2 < 2 ^ bit_length (n div 2)" by auto
    have pos: "0 < bit_length (n div 2)"
      using False by (subst bit_length.simps) simp
    have e: "bit_length n = Suc (bit_length (n div 2))"
      using 1(2) by (subst bit_length.simps) simp
    have "2 ^ (bit_length n - 1) = 2 * 2 ^ (bit_length (n div 2) - 1)"
      using pos e by (cases "bit_length (n div 2)") auto
    also have "\<dots> \<le> 2 * (n div 2)" using ih(1) by simp
    also have "\<dots> \<le> n" by simp
    finally have a: "2 ^ (bit_length n - 1) \<le> n" .
    have "n < 2 * (n div 2) + 2" by presburger
    also have "\<dots> \<le> 2 * 2 ^ bit_length (n div 2)" using ih(2) by simp
    finally have b: "n < 2 ^ bit_length n" using e by simp
    from a b show ?thesis ..
  qed
qed

lemma binade_le_52:
  assumes "0 < a" "a < 2 ^ 53"
  shows "binade a \<le> 52"
proof (cases "1 \<le> a")
  case True
  have "\<lfloor>a\<rfloor> < 2 ^ 53" using assms(2) by (simp add: floor_less_iff)
  then have "nat \<lfloor>a\<rfloor> < 2 ^ 53" using True by (simp add: nat_less_iff)
  from bit_length_le[OF this] True show ?thesis by (simp add: binade_def)
next
  case False
  then show ?thesis by (simp add: binade_def)
qed

lemma ulp_inverse:
  assumes "0 < a" "a < 2 ^ 53"
  shows "\<exists>K::nat. pow2 (max (binade a - 52) (- 1074)) = 1 / real K \<and> 0 < K"
proof -
  have "max (binade a - 52) (- 1074) \<le> 0" using binade_le_52[OF assms] by simp
  from pow2_nonpos[OF this] show ?thesis
    by (intro exI[of _ "2 ^ nat (- max (binade a - 52) (- 1074))"]) simp
qed

lemma round64_pos_eq:
  assumes "0 < x"
  shows "round64 x = of_int (round_half_even (x / pow2 (max (binade x - 52) (- 1074))))
           * pow2 (max (binade x - 52) (- 1074))"
  using assms by (simp add: round64_def Let_def)

lemma round64_ge_int:
  assumes "0 < x" "x < 2 ^ 53" "of_int m \<le> x"
  shows "of_int m \<le> round64 x"
proof -
  from ulp_inverse[OF assms(1,2)] obtain K :: nat where
    u: "pow2 (max (binade x - 52) (- 1074)) = 1 / real K" and K: "0 < K" by blast
  have "of_int (m * int K) \<le> x * real K"
    using assms(3) K by (simp add: mult_right_mono)
  then have "m * int K \<le> round_half_even (x * real K)" by (rule round_half_even_ge)
  then have "real_of_int (m * int K) \<le> real_of_int (round_half_even (x * real K))"
    by linarith
  then have "of_int m \<le> of_int (round_half_even (x * real K)) / real K"
    using K by (simp add: pos_le_divide_eq)
  then show ?thesis unfolding round64_pos_eq[OF assms(1)] u by simp
qed

lemma round64_le_int:
  assumes "0 < x" "x < 2 ^ 53" "x \<le> of_int m"
  shows "round64 x \<le> of_int m"
proof -
  from ulp_inverse[OF assms(1,2)] obtain K :: nat where
    u: "pow2 (max (binade x - 52) (- 1074)) = 1 / real K" and K: "0 < K" by blast
  have "x * real K \<le> of_int (m * int K)"
    using assms(3) K by (simp add: mult_right_mono)
  then have "round_half_even (x * real K) \<le> m * int K" by (rule round_half_even_le)
  then have "real_of_int (round_half_even (x * real K)) \<le> real_of_int (m * int K)"
    by linarith
  then have "of_int (round_half_even (x * real K)) / real K \<le> of_int m"
    using K by (simp add: pos_divide_le_eq)
  then show ?thesis unfolding round64_pos_eq[OF assms(1)] u by simp
qed

lemma round64_nonneg: "0 \<le> x \<Longrightarrow> 0 \<le> round64 x"
proof (cases "x = 0")
  case True
  then show ?thesis by (simp add: round64_def)
next
  case False
  assume "0 \<le> x"
  with False have x: "0 < x" by simp
  have "0 \<le> x / pow2 (max (binade x - 52) (- 1074))"
    using x pow2_pos by (simp add: less_imp_le)
  then have "(0::int) \<le> round_half_even (x / pow2 (max (binade x - 52) (- 1074)))"
    using round_half_even_ge[of 0] by simp
  then show ?thesis unfolding round64_pos_eq[OF x]
    using pow2_pos[of "max (binade x - 52) (- 1074)"] by (simp add: less_imp_le)
qed

lemma round64_of_int:
  assumes "0 \<le> n" "n < 2 ^ 53"
  shows "round64 (of_int n) = of_int n"
proof (cases "n = 0")
  case True
  then show ?thesis by (simp add: round64_def)
next
  case False
  with assms have p: "0 < real_of_int n" and b: "real_of_int n < 2 ^ 53"
    by (simp_all add: of_int_less_numeral_power_cancel_iff)
  from round64_ge_int[OF p b, of n] round64_le_int[OF p b, of n]
  show ?thesis by simp
qed

lemma real_power_le_nat: "2 ^ k \<le> n \<Longrightarrow> (2::real) ^ k \<le> real n"
proof -
  assume "2 ^ k \<le> n"
  then have "real (2 ^ k) \<le> real n" by (rule iffD2[OF of_nat_le_iff])
  then show ?thesis by simp
qed

lemma nat_less_real_power: "n < 2 ^ k \<Longrightarrow> real n + 1 \<le> 2 ^ k"
proof -
  assume "n < 2 ^ k"
  then have "Suc n \<le> 2 ^ k" by simp
  then have "real (Suc n) \<le> real (2 ^ k)" by (rule iffD2[OF of_nat_le_iff])
  then show ?thesis by simp
qed

lemma bit_length_pos: "0 < n \<Longrightarrow> 0 < bit_length n"
  by (subst bit_length.simps) simp

lemma binade_bounds_ge_1:
  assumes "1 \<le> x"
  shows "pow2 (binade x) \<le> x \<and> x < pow2 (binade x + 1)"
proof -
  define n where "n = nat \<lfloor>x\<rfloor>"
  have f1: "1 \<le> \<lfloor>x\<rfloor>" using assms by (simp add: le_floor_iff)
  then have rn: "real n = of_int \<lfloor>x\<rfloor>" by (simp add: n_def)
  have n0: "0 < n" using f1 by (simp add: n_def)
  have n1: "real n \<le> x" unfolding rn by (rule of_int_floor_le)
  have n2: "x < real n + 1" unfolding rn by (rule real_of_int_floor_add_one_gt)
  from bit_length_bounds[OF n0] have
    a: "2 ^ (bit_length n - 1) \<le> n" and b: "n < 2 ^ bit_length n" by simp_all
  obtain k where k: "bit_length n = Suc k"
    using bit_length_pos[OF n0] by (cases "bit_length n") auto
  have e: "binade x = int k" using assms by (simp add: binade_def n_def[symmetric] k)
  have "2 ^ k \<le> n" using a by (simp add: k)
  then have "(2::real) ^ k \<le> real n" by (rule real_power_le_nat)
  then have "(2::real) ^ k \<le> x" using n1 by (rule order_trans)
  moreover have "pow2 (binade x) = 2 ^ k" by (simp add: e pow2_def)
  ultimately have 1: "pow2 (binade x) \<le> x" by simp
  have "real n + 1 \<le> 2 ^ Suc k" using b unfolding k by (rule nat_less_real_power)
  then have "x < 2 ^ Suc k" using n2 by linarith
  moreover have "pow2 (binade x + 1) = 2 ^ Suc k"
    by (simp add: e pow2_def nat_add_distrib)
  ultimately have 2: "x < pow2 (binade x + 1)" by simp
  from 1 2 show ?thesis ..
qed


lemma binade_bounds_lt_1:
  assumes "0 < x" "x < 1"
  shows "pow2 (binade x) \<le> x \<and> x < pow2 (binade x + 1)"
proof -
  define y where "y = 1 / x"
  have y1: "1 < y" using assms by (simp add: y_def)
  have xy: "x = 1 / y" by (simp add: y_def)
  define m where "m = nat (\<lceil>y\<rceil> - 1)"
  have c2: "2 \<le> \<lceil>y\<rceil>" using y1 by linarith
  then have rm: "real m = of_int \<lceil>y\<rceil> - 1" by (simp add: m_def)
  have m0: "0 < m" using c2 by (simp add: m_def)
  have m1: "real m < y" unfolding rm by linarith
  have m2: "y \<le> real m + 1" unfolding rm by linarith
  from bit_length_bounds[OF m0] have
    a: "2 ^ (bit_length m - 1) \<le> m" and b: "m < 2 ^ bit_length m" by simp_all
  obtain k where k: "bit_length m = Suc k"
    using bit_length_pos[OF m0] by (cases "bit_length m") auto
  have e: "binade x = - int (Suc k)"
    using assms(2) by (simp add: binade_def y_def[symmetric] m_def[symmetric] k)
  have "real m + 1 \<le> 2 ^ Suc k" using b unfolding k by (rule nat_less_real_power)
  then have yle: "y \<le> 2 ^ Suc k" using m2 by linarith
  have p: "(0::real) < 2 ^ Suc k" by simp
  have "1 / 2 ^ Suc k \<le> 1 / y"
    using yle y1 by (intro divide_left_mono) simp_all
  moreover have "nat (int k + 1) = Suc k" by simp
  then have "pow2 (binade x) = 1 / 2 ^ Suc k" by (simp add: e pow2_def del: power_Suc)
  ultimately have 1: "pow2 (binade x) \<le> x" unfolding xy by simp
  have "2 ^ k \<le> m" using a by (simp add: k)
  then have "(2::real) ^ k \<le> real m" by (rule real_power_le_nat)
  then have ylt: "2 ^ k < y" using m1 by linarith
  have "0 < y * 2 ^ k" using y1 by simp
  then have "1 / y < 1 / 2 ^ k"
    using ylt by (intro divide_strict_left_mono) simp_all
  moreover have "pow2 (binade x + 1) = 1 / 2 ^ k"
    by (simp add: e pow2_def)
  ultimately have 2: "x < pow2 (binade x + 1)" unfolding xy by simp
  from 1 2 show ?thesis ..
qed

lemma binade_bounds:
  "0 < x \<Longrightarrow> pow2 (binade x) \<le> x \<and> x < pow2 (binade x + 1)"
  using binade_bounds_ge_1[of x] binade_bounds_lt_1[of x] by (cases "1 \<le> x") auto

section \<open>Basic facts\<close>

lemma and_then_Inl [simp]: "and_then (Inl e) f = Inl e"
  by (simp add: and_then_def)

lemma and_then_Inr [simp]: "and_then (Inr x) f = f x"
  by (simp add: and_then_def)

lemma and_then_eq_Inr:
  "and_then m f = Inr y \<longleftrightarrow> (\<exists>x. m = Inr x \<and> f x = Inr y)"
  by (cases m) simp_all

lemma py_int_nonneg: "0 \<le> x \<Longrightarrow> py_int x = \<lfloor>x\<rfloor>"
  by (simp add: py_int_def)

lemma extract_best_take:
  "0 \<le> k \<Longrightarrow>
     extract_best_from_population c pop k = take (nat k) (sort_key (duree c) pop)"
  by (simp add: extract_best_from_population_def py_slice_to_def)

lemma sorted_take_le_drop:
  assumes "sorted (map f xs)" "x \<in> set (take k xs)" "y \<in> set (drop k xs)"
  shows "f x \<le> f y"
proof -
  have "xs = take k xs @ drop k xs" by simp
  then have "sorted (map f (take k xs) @ map f (drop k xs))"
    using assms(1) by (metis map_append)
  then show ?thesis using assms(2,3) by (auto simp: sorted_append)
qed

lemma preserved_size_nonneg:
  assumes "0 \<le> p"
  shows "0 \<le> py_int (py_mul_int_float (int n) p)"
proof -
  have "0 \<le> round64 (of_int (int n))" by (rule round64_nonneg) simp
  then have "0 \<le> round64 (of_int (int n)) * p" using assms by simp
  then have "0 \<le> py_mul_int_float (int n) p"
    unfolding py_mul_int_float_def by (rule round64_nonneg)
  then show ?thesis by (simp add: py_int_nonneg)
qed

lemma preserved_size_bounds:
  assumes "0 \<le> p" "p \<le> 1" "n < 2 ^ 53"
  shows "py_int (py_mul_int_float (int n) p) = \<lfloor>round64 (real n * p)\<rfloor>"
    and "\<lfloor>real n * p\<rfloor> \<le> py_int (py_mul_int_float (int n) p)"
    and "py_int (py_mul_int_float (int n) p) \<le> \<lfloor>real n * p\<rfloor> + 1"
    and "py_int (py_mul_int_float (int n) p) \<le> int n"
proof -
  define x where "x = real n * p"
  have "int n < 2 ^ 53" using assms(3) by (metis of_nat_less_iff of_nat_numeral of_nat_power)
  then have "round64 (of_int (int n)) = of_int (int n)" by (intro round64_of_int) simp_all
  then have m: "py_mul_int_float (int n) p = round64 x"
    by (simp add: py_mul_int_float_def x_def)
  have x0: "0 \<le> x" using assms(1) by (simp add: x_def)
  have "real n * p \<le> real n * 1" using assms(2) by (intro mult_left_mono) simp_all
  then have xn: "x \<le> real n" by (simp add: x_def)
  have "real n < 2 ^ 53" using assms(3) by (metis of_nat_less_iff of_nat_numeral of_nat_power)
  with xn have xb: "x < 2 ^ 53" by simp
  have r0: "0 \<le> round64 x" using x0 by (rule round64_nonneg)
  have pi: "py_int (round64 x) = \<lfloor>round64 x\<rfloor>" using r0 by (rule py_int_nonneg)
  have lo: "of_int \<lfloor>x\<rfloor> \<le> round64 x"
  proof (cases "x = 0")
    case True
    then show ?thesis by (simp add: round64_def)
  next
    case False
    with x0 have "0 < x" by simp
    then show ?thesis using xb by (rule round64_ge_int) simp
  qed
  have hi: "round64 x \<le> of_int m" if "x \<le> of_int m" for m
  proof (cases "x = 0")
    case True
    with that show ?thesis by (simp add: round64_def)
  next
    case False
    with x0 have "0 < x" by simp
    then show ?thesis using xb that by (rule round64_le_int)
  qed
  show "py_int (py_mul_int_float (int n) p) = \<lfloor>round64 (real n * p)\<rfloor>"
    unfolding m pi by (simp add: x_def)
  show "\<lfloor>real n * p\<rfloor> \<le> py_int (py_mul_int_float (int n) p)"
    unfolding m pi x_def[symmetric] using lo by (simp add: le_floor_iff)
  have "x \<le> of_int (\<lfloor>x\<rfloor> + 1)" by simp
  from hi[OF this] have "\<lfloor>round64 x\<rfloor> \<le> \<lfloor>of_int (\<lfloor>x\<rfloor> + 1) :: real\<rfloor>" by (rule floor_mono)
  then show "py_int (py_mul_int_float (int n) p) \<le> \<lfloor>real n * p\<rfloor> + 1"
    unfolding m pi x_def[symmetric] by simp
  have "x \<le> of_int (int n)" using xn by simp
  from hi[OF this] have "\<lfloor>round64 x\<rfloor> \<le> \<lfloor>of_int (int n) :: real\<rfloor>" by (rule floor_mono)
  then show "py_int (py_mul_int_float (int n) p) \<le> int n"
    unfolding m pi by simp
qed

lemma restart_population_eq:
  assumes "0 \<le> py_int (py_mul_int_float (int (length pop)) p)"
  shows "fst (restart_population c pop fl p w)
           = take (nat (py_int (py_mul_int_float (int (length pop)) p)))
               (sort_key (duree c) pop)
             @ fst (random_initial_pop c fl
                 (int (length pop) - py_int (py_mul_int_float (int (length pop)) p)) w)"
  unfolding restart_population_def Let_def
  using assms by (simp add: split_beta extract_best_take)

lemma restart_population_length:
  assumes "0 \<le> p"
    and "\<forall>n w. length (fst (random_initial_pop c fl n w)) = nat n"
  shows "length (fst (restart_population c pop fl p w)) = length pop"
proof -
  have k: "0 \<le> py_int (py_mul_int_float (int (length pop)) p)"
    using assms(1) by (rule preserved_size_nonneg)
  show ?thesis unfolding restart_population_eq[OF k] using assms(2) k by simp
qed

section \<open>The loop, one generation at a time\<close>

lemma generation_front_cases:
  assumes "generation_front c fl ps sn inb s = Inr (t, r, m)"
  obtains pop' w1 bs where
    "update_population c (population s) fl ps sn inb (snd (time_time c (world s))) = Inr (pop', w1)"
    "py_min_key (duree c) pop' = Inr bs"
    "t = fst (time_time c (world s))"
    "r = stagnation (list_statistics s @ [population_statistics c pop'])
           (iterations_where_restart s) (index s + 1)"
    "m = s\<lparr>population := pop',
           list_statistics := list_statistics s @ [population_statistics c pop'],
           overall_best_scheduling :=
             (if duree c (overall_best_scheduling s) > duree c bs then bs
              else overall_best_scheduling s),
           index := index s + 1, world := w1\<rparr>"
proof -
  from assms obtain x where x: "update_population c (population s) fl ps sn inb
       (snd (time_time c (world s))) = Inr x"
    unfolding generation_front_def Let_def case_prod_beta and_then_eq_Inr by blast
  from assms x obtain bs where bs: "py_min_key (duree c) (fst x) = Inr bs"
    unfolding generation_front_def Let_def case_prod_beta and_then_eq_Inr by auto
  from assms have "Inr (t, r, m) = generation_front c fl ps sn inb s" by simp
  also have "\<dots> = Inr (fst (time_time c (world s)),
       stagnation (list_statistics s @ [population_statistics c (fst x)])
           (iterations_where_restart s) (index s + 1),
       s\<lparr>population := fst x,
           list_statistics := list_statistics s @ [population_statistics c (fst x)],
           overall_best_scheduling :=
             (if duree c (overall_best_scheduling s) > duree c bs then bs
              else overall_best_scheduling s),
           index := index s + 1, world := snd x\<rparr>)"
    unfolding generation_front_def Let_def case_prod_beta x bs and_then_Inr ..
  finally show thesis using that[of "fst x" "snd x" bs] x bs by simp
qed

lemma generation_front_Inr:
  assumes "generation_front c fl ps sn inb s = Inr (t, r, m)"
  shows "index m = index s + 1"
    and "list_statistics m = list_statistics s @ [population_statistics c (population m)]"
    and "iterations_where_restart m = iterations_where_restart s"
    and "r = stagnation (list_statistics m) (iterations_where_restart s) (index m)"
    and "update_population c (population s) fl ps sn inb (snd (time_time c (world s)))
           = Inr (population m, world m)"
    and "\<exists>best_sched. py_min_key (duree c) (population m) = Inr best_sched \<and>
           overall_best_scheduling m =
             (if duree c (overall_best_scheduling s) > duree c best_sched then best_sched
              else overall_best_scheduling s)"
    and "t = fst (time_time c (world s))"
proof -
  from assms obtain pop' w1 bs where
    u: "update_population c (population s) fl ps sn inb (snd (time_time c (world s)))
          = Inr (pop', w1)" and
    b: "py_min_key (duree c) pop' = Inr bs" and
    t: "t = fst (time_time c (world s))" and
    r: "r = stagnation (list_statistics s @ [population_statistics c pop'])
           (iterations_where_restart s) (index s + 1)" and
    m: "m = s\<lparr>population := pop',
           list_statistics := list_statistics s @ [population_statistics c pop'],
           overall_best_scheduling :=
             (if duree c (overall_best_scheduling s) > duree c bs then bs
              else overall_best_scheduling s),
           index := index s + 1, world := w1\<rparr>"
    by (rule generation_front_cases)
  show "index m = index s + 1" by (simp add: m)
  show "list_statistics m = list_statistics s @ [population_statistics c (population m)]"
    by (simp add: m)
  show "iterations_where_restart m = iterations_where_restart s" by (simp add: m)
  show "r = stagnation (list_statistics m) (iterations_where_restart s) (index m)"
    by (simp add: m r)
  show "update_population c (population s) fl ps sn inb (snd (time_time c (world s)))
           = Inr (population m, world m)" by (simp add: m u)
  show "\<exists>best_sched. py_min_key (duree c) (population m) = Inr best_sched \<and>
           overall_best_scheduling m =
             (if duree c (overall_best_scheduling s) > duree c best_sched then best_sched
              else overall_best_scheduling s)"
    by (rule exI[of _ bs]) (simp add: m b)
  show "t = fst (time_time c (world s))" by (rule t)
qed

lemma generation_back_restart:
  assumes "generation_back c fl ps thr (t, r, m) = Inr s'"
    and "is_convergent c (population m) thr \<or> r"
  obtains p where "getitem ps ''preserved_prop'' = Inr p"
    "s' = m\<lparr>iterations_where_restart := iterations_where_restart m @ [index m],
            population := fst (restart_population c (population m) fl p (world m)),
            world := snd (time_time c (snd (restart_population c (population m) fl p (world m)))),
            iteration_time :=
              fst (time_time c (snd (restart_population c (population m) fl p (world m)))) - t\<rparr>"
proof -
  from assms obtain p where p: "getitem ps ''preserved_prop'' = Inr p"
    unfolding generation_back_def by (cases "getitem ps ''preserved_prop''") auto
  from assms(1) have "Inr s' = generation_back c fl ps thr (t, r, m)" by simp
  also have "\<dots> = Inr (m\<lparr>iterations_where_restart := iterations_where_restart m @ [index m],
            population := fst (restart_population c (population m) fl p (world m)),
            world := snd (time_time c (snd (restart_population c (population m) fl p (world m)))),
            iteration_time :=
              fst (time_time c (snd (restart_population c (population m) fl p (world m)))) - t\<rparr>)"
    using assms(2) by (simp add: generation_back_def p case_prod_beta)
  finally show thesis using that[OF p] by simp
qed

lemma generation_back_no_restart:
  assumes "generation_back c fl ps thr (t, r, m) = Inr s'"
    and "\<not> (is_convergent c (population m) thr \<or> r)"
  shows "s' = m\<lparr>iteration_time := fst (time_time c (world m)) - t,
                 world := snd (time_time c (world m))\<rparr>"
  using assms by (simp add: generation_back_def case_prod_beta)

lemma generation_back_Inr:
  assumes "generation_back c fl ps thr (t, r, m) = Inr s'"
  shows "index s' = index m"
    and "list_statistics s' = list_statistics m"
    and "overall_best_scheduling s' = overall_best_scheduling m"
    and "is_convergent c (population m) thr \<or> r \<Longrightarrow>
           iterations_where_restart s' = iterations_where_restart m @ [index m] \<and>
           (\<exists>p. getitem ps ''preserved_prop'' = Inr p \<and>
              population s' = fst (restart_population c (population m) fl p (world m)))"
    and "\<not> (is_convergent c (population m) thr \<or> r) \<Longrightarrow>
           iterations_where_restart s' = iterations_where_restart m \<and>
           population s' = population m"
proof -
  have "index s' = index m \<and> list_statistics s' = list_statistics m \<and>
        overall_best_scheduling s' = overall_best_scheduling m"
  proof (cases "is_convergent c (population m) thr \<or> r")
    case True
    from generation_back_restart[OF assms True] obtain p where
      "s' = m\<lparr>iterations_where_restart := iterations_where_restart m @ [index m],
            population := fst (restart_population c (population m) fl p (world m)),
            world := snd (time_time c (snd (restart_population c (population m) fl p (world m)))),
            iteration_time :=
              fst (time_time c (snd (restart_population c (population m) fl p (world m)))) - t\<rparr>"
      by blast
    then show ?thesis by simp
  next
    case False
    from generation_back_no_restart[OF assms False] show ?thesis by simp
  qed
  then show "index s' = index m" and "list_statistics s' = list_statistics m"
    and "overall_best_scheduling s' = overall_best_scheduling m" by simp_all
  show "iterations_where_restart s' = iterations_where_restart m @ [index m] \<and>
           (\<exists>p. getitem ps ''preserved_prop'' = Inr p \<and>
              population s' = fst (restart_population c (population m) fl p (world m)))"
    if "is_convergent c (population m) thr \<or> r"
  proof -
    from generation_back_restart[OF assms that] obtain p where
      p: "getitem ps ''preserved_prop'' = Inr p" and
      "s' = m\<lparr>iterations_where_restart := iterations_where_restart m @ [index m],
            population := fst (restart_population c (population m) fl p (world m)),
            world := snd (time_time c (snd (restart_population c (population m) fl p (world m)))),
            iteration_time :=
              fst (time_time c (snd (restart_population c (population m) fl p (world m)))) - t\<rparr>"
      by blast
    then have "iterations_where_restart s' = iterations_where_restart m @ [index m]"
      and "population s' = fst (restart_population c (population m) fl p (world m))"
      by simp_all
    with p show ?thesis by blast
  qed
  show "iterations_where_restart s' = iterations_where_restart m \<and> population s' = population m"
    if "\<not> (is_convergent c (population m) thr \<or> r)"
    using generation_back_no_restart[OF assms that] by simp
qed

lemma loop_step_Some:
  "loop_step c fl ps sn inb thr t0 s = Some s' \<longleftrightarrow>
     (\<exists>w t r m. loop_test c ps t0 s = Inr (True, w) \<and>
        generation_front c fl ps sn inb (s\<lparr>world := w\<rparr>) = Inr (t, r, m) \<and>
        generation_back c fl ps thr (t, r, m) = Inr s')"
  by (cases "loop_test c ps t0 s")
     (auto simp: loop_step_def generation_def and_then_eq_Inr split: sum.splits if_splits)

lemma generations_add:
  "generations c fl ps sn inb thr t0 (g + h) s =
     (case generations c fl ps sn inb thr t0 g s of None \<Rightarrow> None
      | Some s' \<Rightarrow> generations c fl ps sn inb thr t0 h s')"
  by (induction g arbitrary: s) (auto split: option.splits)

lemma generations_Suc_back:
  "generations c fl ps sn inb thr t0 (Suc g) s =
     (case generations c fl ps sn inb thr t0 g s of None \<Rightarrow> None
      | Some s' \<Rightarrow> loop_step c fl ps sn inb thr t0 s')"
  using generations_add[of c fl ps sn inb thr t0 g 1 s]
  by (auto split: option.splits)

lemma memetic_loop_stops:
  assumes "generations c fl ps sn inb thr t0 g s0 = Some s"
    and "loop_test c ps t0 s = Inr (False, w)"
  shows "memetic_loop c fl ps sn inb thr t0 s0 = Some (Inr (s\<lparr>world := w\<rparr>))"
  using assms
proof (induction g arbitrary: s0)
  case 0
  then show ?case by (subst memetic_loop.simps) simp
next
  case (Suc g)
  from Suc.prems(1) obtain s1 where s1: "loop_step c fl ps sn inb thr t0 s0 = Some s1"
    and g: "generations c fl ps sn inb thr t0 g s1 = Some s"
    by (auto split: option.splits)
  from s1 obtain w1 where t: "loop_test c ps t0 s0 = Inr (True, w1)"
    and gen: "generation c fl ps sn inb thr (s0\<lparr>world := w1\<rparr>) = Inr s1"
    by (auto simp: loop_step_def split: sum.splits prod.splits if_splits)
  have "memetic_loop c fl ps sn inb thr t0 s0 = memetic_loop c fl ps sn inb thr t0 s1"
    by (subst memetic_loop.simps) (simp add: t gen)
  with Suc.IH[OF g Suc.prems(2)] show ?case by simp
qed

lemma memetic_loop_returns_aux:
  "memetic_loop c fl ps sn inb thr t0 s0 = Some r \<Longrightarrow>
     \<forall>sf. r = Inr sf \<longrightarrow> (\<exists>g s w. generations c fl ps sn inb thr t0 g s0 = Some s \<and>
           loop_test c ps t0 s = Inr (False, w) \<and> sf = s\<lparr>world := w\<rparr>)"
proof (induction rule: memetic_loop.raw_induct[rotated 1, consumes 1])
  case (1 loop c fl ps sn inb thr t0 s0 r)
  show ?case
  proof (cases "loop_test c ps t0 s0")
    case (Inl e)
    with 1(2) show ?thesis by auto
  next
    case (Inr bw)
    obtain b w where bw: "bw = (b, w)" by (cases bw)
    show ?thesis
    proof (cases b)
      case False
      with 1(2) Inr bw have "r = Inr (s0\<lparr>world := w\<rparr>)" by simp
      moreover have "generations c fl ps sn inb thr t0 0 s0 = Some s0" by simp
      moreover have "loop_test c ps t0 s0 = Inr (False, w)" using Inr bw False by simp
      ultimately show ?thesis by (intro allI impI exI[of _ 0] exI[of _ s0] exI[of _ w]) simp
    next
      case True
      show ?thesis
      proof (cases "generation c fl ps sn inb thr (s0\<lparr>world := w\<rparr>)")
        case (Inl e)
        with 1(2) Inr bw True show ?thesis by auto
      next
        case gen: (Inr s1)
        with 1(2) Inr bw True have "loop c fl ps sn inb thr t0 s1 = Some r" by simp
        from 1(1)[OF this] have ih: "\<forall>sf. r = Inr sf \<longrightarrow>
           (\<exists>g s w. generations c fl ps sn inb thr t0 g s1 = Some s \<and>
             loop_test c ps t0 s = Inr (False, w) \<and> sf = s\<lparr>world := w\<rparr>)" .
        have st: "loop_step c fl ps sn inb thr t0 s0 = Some s1"
          by (simp add: loop_step_def Inr bw True gen)
        show ?thesis
        proof (intro allI impI)
          fix sf assume "r = Inr sf"
          with ih obtain g s w' where g: "generations c fl ps sn inb thr t0 g s1 = Some s"
            and t: "loop_test c ps t0 s = Inr (False, w')" and sf: "sf = s\<lparr>world := w'\<rparr>"
            by blast
          have "generations c fl ps sn inb thr t0 (Suc g) s0 = Some s" using st g by simp
          with t sf show "\<exists>g s w. generations c fl ps sn inb thr t0 g s0 = Some s \<and>
             loop_test c ps t0 s = Inr (False, w) \<and> sf = s\<lparr>world := w\<rparr>" by blast
        qed
      qed
    qed
  qed
qed

lemma memetic_loop_returns:
  assumes "memetic_loop c fl ps sn inb thr t0 s0 = Some (Inr sf)"
  shows "\<exists>g s w. generations c fl ps sn inb thr t0 g s0 = Some s \<and>
           loop_test c ps t0 s = Inr (False, w) \<and> sf = s\<lparr>world := w\<rparr>"
  using memetic_loop_returns_aux[OF assms] by blast


lemma loop_step_facts:
  assumes "loop_step c fl ps sn inb thr t0 s = Some s'"
  shows "index s' = index s + 1"
    and "\<exists>e. list_statistics s' = list_statistics s @ [e]"
    and "iterations_where_restart s' = iterations_where_restart s \<or>
         iterations_where_restart s' = iterations_where_restart s @ [index s + 1]"
    and "duree c (overall_best_scheduling s') \<le> duree c (overall_best_scheduling s)"
proof -
  from assms obtain w t r m where
    tst: "loop_test c ps t0 s = Inr (True, w)" and
    fr: "generation_front c fl ps sn inb (s\<lparr>world := w\<rparr>) = Inr (t, r, m)" and
    bk: "generation_back c fl ps thr (t, r, m) = Inr s'"
    unfolding loop_step_Some by blast
  note f = generation_front_Inr[OF fr]
  note b = generation_back_Inr[OF bk]
  show "index s' = index s + 1" using f(1) b(1) by simp
  show "\<exists>e. list_statistics s' = list_statistics s @ [e]"
    by (intro exI[of _ "population_statistics c (population m)"]) (simp add: f(2) b(2))
  show "iterations_where_restart s' = iterations_where_restart s \<or>
         iterations_where_restart s' = iterations_where_restart s @ [index s + 1]"
    using f(1,3) b(4,5) by (cases "is_convergent c (population m) thr \<or> r") auto
  from f(6) have "duree c (overall_best_scheduling m) \<le> duree c (overall_best_scheduling s)"
    by (auto split: if_splits)
  then show "duree c (overall_best_scheduling s') \<le> duree c (overall_best_scheduling s)"
    using b(3) by simp
qed

lemma loop_step_restart_inv:
  assumes "loop_step c fl ps sn inb thr t0 s = Some s'" "restart_inv s"
  shows "restart_inv s'"
  using loop_step_facts(1,3)[OF assms(1)] assms(2)
  unfolding restart_inv_def by (fastforce simp: sorted_wrt_append)

lemma generations_facts:
  assumes "generations c fl ps sn inb thr t0 g s = Some s'"
  shows "index s' = index s + int g \<and>
         length (list_statistics s') = length (list_statistics s) + g \<and>
         take (length (list_statistics s)) (list_statistics s') = list_statistics s \<and>
         (\<exists>ext. iterations_where_restart s' = iterations_where_restart s @ ext) \<and>
         duree c (overall_best_scheduling s') \<le> duree c (overall_best_scheduling s) \<and>
         (restart_inv s \<longrightarrow> restart_inv s')"
  using assms
proof (induction g arbitrary: s)
  case 0
  then show ?case by simp
next
  case (Suc g)
  then obtain s1 where a: "loop_step c fl ps sn inb thr t0 s = Some s1"
    and b: "generations c fl ps sn inb thr t0 g s1 = Some s'" by (auto split: option.splits)
  note ih = Suc.IH[OF b]
  note st = loop_step_facts[OF a]
  from st(2) obtain e where e: "list_statistics s1 = list_statistics s @ [e]" ..
  have 1: "index s' = index s + int (Suc g)" using ih st(1) by simp
  have 2: "length (list_statistics s') = length (list_statistics s) + Suc g"
    using ih e by simp
  have "take (length (list_statistics s)) (take (length (list_statistics s1)) (list_statistics s'))
          = take (length (list_statistics s)) (list_statistics s1)"
    using ih by simp
  then have 3: "take (length (list_statistics s)) (list_statistics s') = list_statistics s"
    using e by (simp add: min_def)
  have 4: "\<exists>ext. iterations_where_restart s' = iterations_where_restart s @ ext"
    using ih st(3) by auto
  have 5: "duree c (overall_best_scheduling s') \<le> duree c (overall_best_scheduling s)"
    using ih st(4) by simp
  have 6: "restart_inv s \<longrightarrow> restart_inv s'"
    using ih loop_step_restart_inv[OF a] by simp
  show ?case using 1 2 3 4 5 6 by blast
qed

lemma getitem_Inr_iff: "getitem ps key = Inr v \<longleftrightarrow> ps key = Some v"
  by (simp add: getitem_def split: option.splits)

lemma getitem_None: "ps key = None \<Longrightarrow> getitem ps key = Inl (KeyError key)"
  by (simp add: getitem_def)

lemma initial_state_Inr:
  assumes "initial_state c fl ps w0 = Inr (thr, s0)"
  shows "index s0 = 0" and "iteration_time s0 = 0" and "iterations_where_restart s0 = []"
    and "list_statistics s0 = [population_statistics c (population s0)]"
    and "py_min_key (duree c) (population s0) = Inr (overall_best_scheduling s0)"
    and "\<exists>random_prop deter_prop best_deter pop_init_size.
           ps ''random_prop'' = Some random_prop \<and> ps ''deter_prop'' = Some deter_prop \<and>
           ps ''best_deter'' = Some best_deter \<and> ps ''pop_init_size'' = Some pop_init_size \<and>
           thr = initialize_threshold c pop_init_size \<and>
           (population s0, world s0) =
             initial_pop c fl random_prop deter_prop best_deter pop_init_size w0"
proof -
  from assms obtain n rp dp bd b where
    k: "ps ''pop_init_size'' = Some n" "ps ''random_prop'' = Some rp"
       "ps ''deter_prop'' = Some dp" "ps ''best_deter'' = Some bd" and
    b: "py_min_key (duree c) (fst (initial_pop c fl rp dp bd n w0)) = Inr b"
    unfolding initial_state_def Let_def case_prod_beta and_then_eq_Inr getitem_def
    by (auto split: option.splits)
  have "Inr (thr, s0) = initial_state c fl ps w0" using assms by simp
  also have "\<dots> = Inr (initialize_threshold c n,
       \<lparr>population = fst (initial_pop c fl rp dp bd n w0),
        list_statistics = [population_statistics c (fst (initial_pop c fl rp dp bd n w0))],
        overall_best_scheduling = b, iterations_where_restart = [],
        index = 0, iteration_time = 0, world = snd (initial_pop c fl rp dp bd n w0)\<rparr>)"
    by (simp add: initial_state_def Let_def case_prod_beta getitem_def k b)
  finally have thr: "thr = initialize_threshold c n" and
    s0: "s0 = \<lparr>population = fst (initial_pop c fl rp dp bd n w0),
        list_statistics = [population_statistics c (fst (initial_pop c fl rp dp bd n w0))],
        overall_best_scheduling = b, iterations_where_restart = [],
        index = 0, iteration_time = 0, world = snd (initial_pop c fl rp dp bd n w0)\<rparr>"
    by simp_all
  show "index s0 = 0" and "iteration_time s0 = 0" and "iterations_where_restart s0 = []"
    and "list_statistics s0 = [population_statistics c (population s0)]"
    and "py_min_key (duree c) (population s0) = Inr (overall_best_scheduling s0)"
    by (simp_all add: s0 b)
  show "\<exists>random_prop deter_prop best_deter pop_init_size.
           ps ''random_prop'' = Some random_prop \<and> ps ''deter_prop'' = Some deter_prop \<and>
           ps ''best_deter'' = Some best_deter \<and> ps ''pop_init_size'' = Some pop_init_size \<and>
           thr = initialize_threshold c pop_init_size \<and>
           (population s0, world s0) =
             initial_pop c fl random_prop deter_prop best_deter pop_init_size w0"
    using k thr by (simp add: s0)
qed

lemma initial_state_restart_inv:
  "initial_state c fl ps w0 = Inr (thr, s0) \<Longrightarrow> restart_inv s0"
  by (simp add: restart_inv_def initial_state_Inr(3))

section \<open>Evaluating the test doubles\<close>

lemma getitem_stub:
  "getitem (stub_parameters tlim) ''time_limit'' = Inr tlim"
  "getitem (stub_parameters tlim) ''preserved_prop'' = Inr (1/2)"
  "getitem (stub_parameters tlim) ''pop_init_size'' = Inr 2"
  "getitem (stub_parameters tlim) ''random_prop'' = Inr 1"
  "getitem (stub_parameters tlim) ''deter_prop'' = Inr 0"
  "getitem (stub_parameters tlim) ''best_deter'' = Inr 0"
  by (simp_all add: getitem_def stub_parameters_def)

lemma update_population_stub:
  "update_population (stub conv) pop () (stub_parameters tlim) () () w = Inr (pop, w)"
  by (simp add: update_population_def getitem_def stub_parameters_def stub_def)

lemma stub_fields:
  "duree (stub conv) = real"
  "initialize_threshold (stub conv) = (\<lambda>_. ())"
  "time_time (stub conv) = (\<lambda>w. (30 * real w, Suc w))"
  "population_statistics (stub conv) = stub_statistics"
  "is_convergent (stub conv) = (\<lambda>_ _. conv)"
  "random_initial_pop (stub conv) = (\<lambda>_ n w. (replicate (nat n) 900, w))"
  by (simp_all add: stub_def)



lemma initial_pop_stub:
  "initial_pop (stub conv) fl a b d 2 w = ([500, 501], w)"
proof -
  have "[0 ..< nat \<lfloor>2::real\<rfloor>] = [0, Suc 0]" by (simp add: numeral_2_eq_2)
  then show ?thesis by (simp add: stub_def)
qed

lemma stub_statistics_2 [simp]:
  "stub_statistics [500, 501] = (1001 / 2, 500, 501)"
  "stub_statistics [500, 900] = (700, 500, 900)"
  by (simp_all add: stub_statistics_def)

lemma stat_window_drop:
  "stat_window xs = map (\<lambda>e. fst (snd e)) (drop (length xs - 10) xs)"
proof -
  have n: "nat (max 0 (int (length xs) - 10)) = length xs - 10" by simp
  show ?thesis unfolding stat_window_def n
    by (rule nth_equalityI) simp_all
qed

lemmas round64_eval = round64_def binade_def bit_length_numeral pow2_def
  round_half_even_def Let_def

lemma py_mul_stub:
  "py_mul_int_float 2 (1 / 2) = 1"
  "py_mul_int_float 1 (1 / 2) = 1 / 2"
  "py_mul_int_float 4 (1 / 2) = 2"
  "py_mul_int_float 2 (- (1 / 2)) = - 1"
  by (simp_all add: py_mul_int_float_def round64_eval)

lemmas run_defs = py_mul_stub loop_step_def loop_test_def generation_def generation_front_def generation_back_def
      getitem_stub update_population_stub stub_fields py_min_key_def stagnation_def Let_def
      restart_population_def extract_best_from_population_def py_int_def py_slice_to_def stat_window_drop

lemma init_stub: "initial_state (stub conv) () (stub_parameters tlim) 1 =
   Inr ((), \<lparr>population = [500, 501], list_statistics = [(1001 / 2, 500, 501)],
          overall_best_scheduling = 500, iterations_where_restart = [], index = 0,
          iteration_time = 0, world = 1\<rparr>)"
  by (simp add: initial_state_def getitem_stub initial_pop_stub stub_fields py_min_key_def)

lemma replicate_unfold:
  "replicate 9 x = [x, x, x, x, x, x, x, x, x]"
  "replicate 10 x = [x, x, x, x, x, x, x, x, x, x]"
  by (simp_all add: numeral_eq_Suc)

lemma Suc_numerals:
  "(8::nat) = Suc (Suc (Suc (Suc (Suc (Suc (Suc (Suc 0)))))))"
  "(3::nat) = Suc (Suc (Suc 0))"
  by simp_all

lemma Suc_18:
  "(18::nat) = Suc (Suc (Suc (Suc (Suc (Suc (Suc (Suc (Suc (Suc (Suc (Suc (Suc (Suc (Suc
     (Suc (Suc (Suc 0)))))))))))))))))"
  by simp

lemma stub0_fields:
  "duree0 stub0 = real"
  "time_time0 stub0 = (\<lambda>w. (1199 / 10 * real w, Suc w))"
  "crossing stub0 = (\<lambda>_ pop w. (pop, w))"
  "mutation0 stub0 = (\<lambda>pop w. (map Suc pop, w))"
  "local_search0 stub0 = (\<lambda>pop w. (pop, w))"
  "random_initial_pop0 stub0 = (\<lambda>_ w. ([500, 501], w))"
  "Ordonnancement stub0 = (\<lambda>_. 0)"
  by (simp_all add: stub0_def)

lemmas run0_defs = generation0_def loop_test0_def find_best_ordo_in_list_def stub0_fields

section \<open>The restart policy\<close>

text \<open>
  C2, as amended. For a preserved proportion \<open>p\<close> between 0 and 1 and a population of
  \<open>N\<close> schedules, \<^verbatim>\<open>restart_population\<close> returns the first \<open>k\<close> members of the
  population sorted by ascending duration, followed by what \<^verbatim>\<open>random_initial_pop\<close>
  returns when asked for \<open>N - k\<close> individuals, where \<open>k\<close> is
  \<^verbatim>\<open>int(len(population) * p)\<close>. The preserved members are sorted, and none of them is
  longer than a member left out. When \<^verbatim>\<open>random_initial_pop\<close> returns as many
  individuals as it is asked for, the fresh part has \<open>N - k\<close> members and the result
  has \<open>N\<close>. For a population of fewer than \<open>2 ^ 53\<close> schedules, \<open>k\<close> is the integer
  part of the product \<open>N * p\<close> rounded to the nearest float: it is \<open>floor (N * p)\<close> or
  one more, and at most \<open>N\<close>.
\<close>

theorem restart_population_composition:
  assumes "0 \<le> p" and "p \<le> 1"
    and "\<forall>n w. length (fst (random_initial_pop c flowshop n w)) = nat n"
  shows "(let N = length pop;
              k = nat (py_int (py_mul_int_float (int N) p));
              sorted_list = sort_key (duree c) pop;
              preserved = take k sorted_list;
              fresh = fst (random_initial_pop c flowshop (int N - int k) w)
          in fst (restart_population c pop flowshop p w) = preserved @ fresh
           \<and> length preserved = min k N \<and> length fresh = N - k
           \<and> length (fst (restart_population c pop flowshop p w)) = N
           \<and> mset (preserved @ drop k sorted_list) = mset pop
           \<and> sorted (map (duree c) preserved)
           \<and> (\<forall>x \<in> set preserved. \<forall>y \<in> set (drop k sorted_list). duree c x \<le> duree c y)
           \<and> (N < 2 ^ 53 \<longrightarrow>
                int k = \<lfloor>round64 (real N * p)\<rfloor> \<and>
                \<lfloor>real N * p\<rfloor> \<le> int k \<and> int k \<le> \<lfloor>real N * p\<rfloor> + 1 \<and> k \<le> N))"
proof -
  define N where "N = length pop"
  define k where "k = nat (py_int (py_mul_int_float (int N) p))"
  define sl where "sl = sort_key (duree c) pop"
  define fresh where "fresh = fst (random_initial_pop c flowshop (int N - int k) w)"
  have k0: "0 \<le> py_int (py_mul_int_float (int N) p)"
    using assms(1) by (rule preserved_size_nonneg)
  have ki: "int k = py_int (py_mul_int_float (int N) p)"
    using k0 by (simp add: k_def)
  have out: "fst (restart_population c pop flowshop p w) = take k sl @ fresh"
    using restart_population_eq[of pop p c flowshop w] k0
    unfolding N_def[symmetric] ki[symmetric] sl_def fresh_def by simp
  have lp: "length (take k sl) = min k N" by (simp add: sl_def N_def min.commute)
  have lf: "length fresh = N - k"
    using assms(3) unfolding fresh_def by (simp add: nat_diff_distrib')
  have so: "sorted (map (duree c) sl)" by (simp add: sl_def)
  have st: "sorted (map (duree c) (take k sl))"
    using so by (metis sorted_wrt_take take_map)
  have ms: "mset (take k sl @ drop k sl) = mset pop" by (simp add: sl_def)
  have le: "\<forall>x \<in> set (take k sl). \<forall>y \<in> set (drop k sl). duree c x \<le> duree c y"
    using sorted_take_le_drop[OF so] by blast
  have len: "length (fst (restart_population c pop flowshop p w)) = N"
    using out lp lf by simp
  have fl: "N < 2 ^ 53 \<longrightarrow>
                int k = \<lfloor>round64 (real N * p)\<rfloor> \<and>
                \<lfloor>real N * p\<rfloor> \<le> int k \<and> int k \<le> \<lfloor>real N * p\<rfloor> + 1 \<and> k \<le> N"
  proof
    assume "N < 2 ^ 53"
    note b = preserved_size_bounds[OF assms(1,2) this]
    have "k \<le> N" using b(4) ki by linarith
    with b(1,2,3) ki
    show "int k = \<lfloor>round64 (real N * p)\<rfloor> \<and>
          \<lfloor>real N * p\<rfloor> \<le> int k \<and> int k \<le> \<lfloor>real N * p\<rfloor> + 1 \<and> k \<le> N"
      by simp
  qed
  show ?thesis
    unfolding Let_def N_def[symmetric] k_def[symmetric] sl_def[symmetric] fresh_def[symmetric]
    using out lp lf len ms st le fl by blast
qed

text \<open>Four schedules and a preserved proportion of one half: no rounding.\<close>

theorem restart_population_composition_witness:
  "(0::real) \<le> 1/2 \<and> (1/2::real) \<le> 1
   \<and> (\<forall>n w. length (fst (random_initial_pop (stub False) () n w)) = nat n)
   \<and> length [503, 500, 502, 501 :: nat] < 2 ^ 53
   \<and> nat (py_int (py_mul_int_float (int (length [503, 500, 502, 501 :: nat])) (1/2))) = 2
   \<and> \<lfloor>round64 (real (length [503, 500, 502, 501 :: nat]) * (1/2))\<rfloor> = 2
   \<and> fst (restart_population (stub False) [503, 500, 502, 501] () (1/2) 7)
       = [500, 501, 900, 900]
   \<and> length (fst (restart_population (stub False) [503, 500, 502, 501] () (1/2) 7)) = 4"
proof -
  have h: "\<forall>n w. length (fst (random_initial_pop (stub False) () n w)) = nat n"
    by (simp add: stub_def)
  have l: "length [503, 500, 502, 501 :: nat] < 2 ^ 53" by simp
  have k: "nat (py_int (py_mul_int_float (int (length [503, 500, 502, 501 :: nat])) (1/2))) = 2"
    by (simp add: py_mul_stub py_int_def)
  have s: "sort_key (duree (stub False)) [503, 500, 502, 501] = [500, 501, 502, 503]"
    by (simp add: stub_def)
  have f: "fst (random_initial_pop (stub False) () 2 7) = [900, 900]"
    by (simp add: stub_def numeral_2_eq_2)
  from restart_population_composition[of "1/2" "stub False" "()" "[503, 500, 502, 501]" 7,
      OF _ _ h]
  have "fst (restart_population (stub False) [503, 500, 502, 501] () (1/2) 7)
          = take 2 [500, 501, 502, 503] @ [900, 900]
        \<and> length (fst (restart_population (stub False) [503, 500, 502, 501] () (1/2) 7)) = 4
        \<and> (length [503, 500, 502, 501 :: nat] < 2 ^ 53 \<longrightarrow>
             int 2 = \<lfloor>round64 (real (length [503, 500, 502, 501 :: nat]) * (1/2))\<rfloor>)"
    unfolding Let_def k s using f by simp
  with h l k show ?thesis by simp
qed

text \<open>
  C2 as stated fails: 0.6 as a float is 5404319552844595 / 2 ^ 53, just below six tenths.
  Five times that is below 3, with floor 2, but the nearest float to the product is 3:
  three schedules are preserved, not two, and two are fresh, not three.
\<close>

theorem restart_population_rounds_up:
  "(0::real) \<le> 5404319552844595 / 9007199254740992
   \<and> (5404319552844595 / 9007199254740992 :: real) \<le> 1
   \<and> round64 (6 / 10) = 5404319552844595 / 9007199254740992
   \<and> \<lfloor>real (length [505, 501, 504, 502, 503 :: nat])
         * (5404319552844595 / 9007199254740992)\<rfloor> = 2
   \<and> py_mul_int_float 5 (5404319552844595 / 9007199254740992) = 3
   \<and> fst (restart_population (stub False) [505, 501, 504, 502, 503] ()
            (5404319552844595 / 9007199254740992) 7)
       = [501, 502, 503, 900, 900]"
proof -
  have m: "py_mul_int_float 5 (5404319552844595 / 9007199254740992) = 3"
    by (simp add: py_mul_int_float_def round64_eval)
  have r: "round64 (6 / 10) = 5404319552844595 / 9007199254740992"
    by (simp add: round64_eval)
  have f: "\<lfloor>real (length [505, 501, 504, 502, 503 :: nat])
         * (5404319552844595 / 9007199254740992)\<rfloor> = 2" by simp
  have v: "fst (restart_population (stub False) [505, 501, 504, 502, 503] ()
            (5404319552844595 / 9007199254740992) 7) = [501, 502, 503, 900, 900]"
    by (simp add: restart_population_def extract_best_from_population_def py_int_def
          py_slice_to_def stub_fields Let_def m numeral_2_eq_2)
  from m r f v show ?thesis by simp
qed

text \<open>The head of the stably sorted population is Python's \<^verbatim>\<open>min\<close> by key.\<close>

lemma min_from_swap:
  "(if key b \<le> key (min_from key y zs) then b else min_from key y zs)
     = min_from key (if key y < key b then y else b) zs"
proof (induction zs arbitrary: b y)
  case Nil
  then show ?case by auto
next
  case (Cons z zs)
  define y' where "y' = (if key z < key y then z else y)"
  define b' where "b' = (if key y < key b then y else b)"
  have e: "(if key y' < key b then y' else b) = (if key z < key b' then z else b')"
    unfolding y'_def b'_def by auto
  have "(if key b \<le> key (min_from key y' zs) then b else min_from key y' zs)
          = min_from key (if key y' < key b then y' else b) zs"
    by (rule Cons)
  also have "\<dots> = min_from key (if key z < key b' then z else b') zs"
    by (simp only: e)
  finally show ?case
    unfolding min_from.simps y'_def[symmetric] b'_def[symmetric] .
qed

lemma hd_insort_key:
  "hd (insort_key f x ys) = (if ys = [] \<or> f x \<le> f (hd ys) then x else hd ys)"
  by (cases ys) auto

lemma sort_key_Nil_iff: "sort_key f xs = [] \<longleftrightarrow> xs = []"
  by (metis length_0_conv length_sort)

lemma hd_sort_key: "hd (sort_key f (b # ys)) = min_from f b ys"
proof (induction ys arbitrary: b)
  case Nil
  then show ?case by simp
next
  case (Cons y ys)
  have "hd (sort_key f (b # y # ys)) = hd (insort_key f b (sort_key f (y # ys)))"
    by simp
  also have "\<dots> = (if f b \<le> f (hd (sort_key f (y # ys))) then b else hd (sort_key f (y # ys)))"
    unfolding hd_insort_key using sort_key_Nil_iff[of f "y # ys"] by simp
  also have "\<dots> = (if f b \<le> f (min_from f y ys) then b else min_from f y ys)"
    by (simp only: Cons)
  also have "\<dots> = min_from f (if f y < f b then y else b) ys"
    by (rule min_from_swap)
  finally show ?case by simp
qed

text \<open>
  C9, as amended. For a population that is not empty and a preserved proportion \<open>p\<close>
  between 0 and 1, let \<open>k\<close> be \<^verbatim>\<open>int(len(population) * p)\<close>, which is not negative.
  \<^verbatim>\<open>restart_population\<close> returns the first \<open>k\<close> schedules of the population sorted by
  ascending duration, followed by the fresh individuals. When \<open>k\<close> is at least one, the
  result starts with the member that \<^verbatim>\<open>min(population, key=duree)\<close> returns: the first
  member of least duration. When \<open>k\<close> is zero the result is the fresh individuals alone:
  no member is carried over.
\<close>

theorem restart_keeps_best_when_room:
  assumes "pop \<noteq> []" and "0 \<le> p" and "p \<le> 1"
  shows "(let k = py_int (py_mul_int_float (int (length pop)) p);
              fresh = fst (random_initial_pop c flowshop (int (length pop) - k) w)
          in 0 \<le> k
           \<and> fst (restart_population c pop flowshop p w)
               = take (nat k) (sort_key (duree c) pop) @ fresh
           \<and> (1 \<le> k \<longrightarrow>
                (\<exists>best rest. py_min_key (duree c) pop = Inr best \<and>
                   fst (restart_population c pop flowshop p w) = best # rest))
           \<and> (k = 0 \<longrightarrow> fst (restart_population c pop flowshop p w) = fresh))"
proof -
  define k where "k = py_int (py_mul_int_float (int (length pop)) p)"
  define fresh where "fresh = fst (random_initial_pop c flowshop (int (length pop) - k) w)"
  have k0: "0 \<le> k" unfolding k_def using assms(2) by (rule preserved_size_nonneg)
  have out: "fst (restart_population c pop flowshop p w)
               = take (nat k) (sort_key (duree c) pop) @ fresh"
    using restart_population_eq[of pop p c flowshop w] k0
    unfolding k_def fresh_def by simp
  obtain b ys where pop: "pop = b # ys" using assms(1) by (cases pop) auto
  have 1: "\<exists>best rest. py_min_key (duree c) pop = Inr best \<and>
             fst (restart_population c pop flowshop p w) = best # rest" if "1 \<le> k"
  proof -
    have sl: "sort_key (duree c) pop \<noteq> []" using assms(1) by (simp add: sort_key_Nil_iff)
    have "0 < nat k" using that by simp
    then have "\<exists>rest. take (nat k) (sort_key (duree c) pop)
                 = hd (sort_key (duree c) pop) # rest"
      using sl by (cases "sort_key (duree c) pop"; cases "nat k") auto
    then obtain rest where
      r: "take (nat k) (sort_key (duree c) pop) = min_from (duree c) b ys # rest"
      using hd_sort_key[of "duree c" b ys] pop by auto
    have "fst (restart_population c pop flowshop p w)
            = min_from (duree c) b ys # (rest @ fresh)"
      by (simp add: out r)
    moreover have "py_min_key (duree c) pop = Inr (min_from (duree c) b ys)"
      by (simp add: py_min_key_def pop)
    ultimately show ?thesis by blast
  qed
  have 2: "fst (restart_population c pop flowshop p w) = fresh" if "k = 0"
    using out that by simp
  show ?thesis
    unfolding Let_def k_def[symmetric] fresh_def[symmetric]
    using k0 out 1 2 by blast
qed

text \<open>Two schedules and a preserved proportion of one half: one is kept.\<close>

theorem restart_keeps_best_when_room_witness:
  "[503, 500 :: nat] \<noteq> [] \<and> (0::real) \<le> 1/2 \<and> (1/2::real) \<le> 1
   \<and> py_int (py_mul_int_float (int (length [503, 500 :: nat])) (1/2)) = 1
   \<and> py_min_key (duree (stub False)) [503, 500] = Inr 500
   \<and> fst (restart_population (stub False) [503, 500] () (1/2) 7) = [500, 900]"
proof -
  have n: "[503, 500 :: nat] \<noteq> []" by simp
  have k: "py_int (py_mul_int_float (int (length [503, 500 :: nat])) (1/2)) = 1"
    by (simp add: py_mul_stub py_int_def)
  have m: "py_min_key (duree (stub False)) [503, 500] = Inr 500"
    by (simp add: py_min_key_def stub_fields)
  have s: "sort_key (duree (stub False)) [503, 500] = [500, 503]"
    by (simp add: stub_fields)
  have f: "fst (random_initial_pop (stub False) () (int (length [503, 500 :: nat]) - 1) 7) = [900]"
    by (simp add: stub_fields)
  from restart_keeps_best_when_room[OF n, of "1/2" "stub False" "()" 7]
  have "fst (restart_population (stub False) [503, 500] () (1/2) 7)
          = take (nat 1) [500, 503] @ [900]"
    unfolding Let_def k s f by simp
  then have "fst (restart_population (stub False) [503, 500] () (1/2) 7) = [500, 900]"
    by simp
  with n k m show ?thesis by simp
qed

text \<open>
  C9 as stated fails: with a population of one schedule and half of it preserved,
  \<open>k = 0\<close> and the result is all fresh.
\<close>

theorem restart_may_discard_all:
  "(0::real) \<le> 1/2 \<and> (1/2::real) \<le> 1 \<and> [500 :: nat] \<noteq> []
   \<and> py_int (py_mul_int_float (int (length [500 :: nat])) (1/2)) = 0
   \<and> fst (restart_population (stub False) [500] () (1/2) 7) = [900]
   \<and> 500 \<notin> set (fst (restart_population (stub False) [500] () (1/2) 7))"
  by (simp add: restart_population_def extract_best_from_population_def py_int_def
        py_slice_to_def stub_fields Let_def py_mul_stub)

section \<open>The stagnation test\<close>

lemma Min_eq_Max_iff:
  fixes A :: "real set"
  assumes "finite A" "A \<noteq> {}"
  shows "Min A = Max A \<longleftrightarrow> (\<exists>v. \<forall>x \<in> A. x = v)"
proof
  assume e: "Min A = Max A"
  have "x = Min A" if "x \<in> A" for x
    using Min_le[OF assms(1) that] Max_ge[OF assms(1) that] e by simp
  then show "\<exists>v. \<forall>x \<in> A. x = v" by blast
next
  assume "\<exists>v. \<forall>x \<in> A. x = v"
  then obtain v where v: "\<forall>x \<in> A. x = v" ..
  have "Min A \<in> A" "Max A \<in> A" using assms by simp_all
  with v show "Min A = Max A" by metis
qed

lemma sorted_le_last:
  fixes xs :: "int list"
  assumes "sorted xs" "x \<in> set xs"
  shows "x \<le> last xs"
proof -
  have ne: "xs \<noteq> []" using assms(2) by auto
  then have e: "xs = butlast xs @ [last xs]" by simp
  then have "sorted (butlast xs @ [last xs])" using assms(1) by simp
  then have "\<forall>a \<in> set (butlast xs). a \<le> last xs" by (simp add: sorted_append)
  moreover have "x \<in> set (butlast xs) \<or> x = last xs"
    using assms(2) e by (metis Un_iff empty_iff insert_iff list.set(1,2) set_append)
  ultimately show ?thesis by auto
qed

lemma stagnation_iff:
  assumes "sorted rs"
  shows "stagnation stats rs i \<longleftrightarrow>
     10 \<le> length stats \<and> (\<forall>r \<in> set rs. r + 10 \<le> i) \<and>
     (\<exists>v. \<forall>e \<in> set (drop (length stats - 10) stats). fst (snd e) = v)"
proof -
  have a: "(rs = [] \<or> i \<ge> last rs + 10) \<longleftrightarrow> (\<forall>r \<in> set rs. r + 10 \<le> i)"
  proof (cases "rs = []")
    case True
    then show ?thesis by simp
  next
    case False
    then have "last rs \<in> set rs" by simp
    moreover have "r \<le> last rs" if "r \<in> set rs" for r
      using assms that by (rule sorted_le_last)
    ultimately show ?thesis using False by fastforce
  qed
  have b: "Min (set (stat_window stats)) = Max (set (stat_window stats)) \<longleftrightarrow>
           (\<exists>v. \<forall>e \<in> set (drop (length stats - 10) stats). fst (snd e) = v)"
    if "10 \<le> length stats"
  proof -
    have "drop (length stats - 10) stats \<noteq> []" using that by simp
    then have ne: "set (stat_window stats) \<noteq> {}" by (simp add: stat_window_drop)
    show ?thesis
      unfolding Min_eq_Max_iff[OF finite_set ne] by (simp add: stat_window_drop)
  qed
  have c: "length stats > 9 \<longleftrightarrow> 10 \<le> length stats" by auto
  show ?thesis unfolding stagnation_def a c using b by blast
qed

text \<open>
  C3. In a run, take the generation that follows \<open>g\<close> completed ones: its index is
  \<open>g + 1\<close> and the history holds \<open>g + 2\<close> entries once its own is appended. The
  flag \<^verbatim>\<open>restart\<close> is set at that generation exactly when the history holds at least
  ten entries, every restart recorded so far (of either kind) is at least ten
  generations old, and the min components of the last ten entries are all equal. When
  the flag is set, the generation records its index in the restart list. So ten equal
  min values, the tenth appended at generation 9, with no restart before, trigger a
  restart at that generation.
\<close>

theorem stagnation_test_iff:
  assumes "initial_state c fl ps w0 = Inr (thr, s0)"
    and "generations c fl ps sn inb thr t0 g s0 = Some s"
    and "loop_test c ps t0 s = Inr (True, w)"
    and "generation_front c fl ps sn inb (s\<lparr>world := w\<rparr>) = Inr (t, restart, m)"
  shows "(restart \<longleftrightarrow>
           10 \<le> length (list_statistics m) \<and>
           (\<forall>r \<in> set (iterations_where_restart m). r + 10 \<le> index m) \<and>
           (\<exists>v. \<forall>e \<in> set (drop (length (list_statistics m) - 10) (list_statistics m)).
                   fst (snd e) = v))
       \<and> (restart \<longrightarrow> (\<forall>s'. generation_back c fl ps thr (t, restart, m) = Inr s' \<longrightarrow>
             iterations_where_restart s' = iterations_where_restart m @ [index m]))
       \<and> index m = int g + 1 \<and> length (list_statistics m) = g + 2"
proof -
  note i = initial_state_Inr[OF assms(1)]
  note gf = generations_facts[OF assms(2)]
  note f = generation_front_Inr[OF assms(4)]
  have "restart_inv s" using gf initial_state_restart_inv[OF assms(1)] by blast
  then have "sorted_wrt (<) (iterations_where_restart s)" by (simp add: restart_inv_def)
  then have so: "sorted (iterations_where_restart m)"
    using f(3) by (simp add: strict_sorted_imp_sorted)
  have 1: "restart \<longleftrightarrow>
           10 \<le> length (list_statistics m) \<and>
           (\<forall>r \<in> set (iterations_where_restart m). r + 10 \<le> index m) \<and>
           (\<exists>v. \<forall>e \<in> set (drop (length (list_statistics m) - 10) (list_statistics m)).
                   fst (snd e) = v)"
    using f(4) f(3) stagnation_iff[OF so, of "list_statistics m" "index m"] by simp
  have 2: "restart \<longrightarrow> (\<forall>s'. generation_back c fl ps thr (t, restart, m) = Inr s' \<longrightarrow>
             iterations_where_restart s' = iterations_where_restart m @ [index m])"
  proof (intro impI allI)
    fix s' assume r: restart and b: "generation_back c fl ps thr (t, restart, m) = Inr s'"
    from generation_back_Inr(4)[OF b] r
    show "iterations_where_restart s' = iterations_where_restart m @ [index m]" by simp
  qed
  have 3: "index m = int g + 1" using f(1) gf i(1) by simp
  have 4: "length (list_statistics m) = g + 2" using f(2) gf i(4) by simp
  show ?thesis using 1 2 3 4 by blast
qed

text \<open>
  The test double, with min value 500 at every generation: the flag is set when the
  tenth entry is appended.
\<close>

theorem stagnation_test_iff_witness:
  "initial_state (stub False) () (stub_parameters 100) 1 =
     Inr ((), \<lparr>population = [500, 501], list_statistics = [(1001 / 2, 500, 501)],
               overall_best_scheduling = 500, iterations_where_restart = [], index = 0,
               iteration_time = 0, world = 1\<rparr>)
   \<and> generations (stub False) () (stub_parameters 100) () () () 0 8
       \<lparr>population = [500, 501], list_statistics = [(1001 / 2, 500, 501)],
        overall_best_scheduling = 500, iterations_where_restart = [], index = 0,
        iteration_time = 0, world = 1\<rparr>
     = Some \<lparr>population = [500, 501], list_statistics = replicate 9 (1001 / 2, 500, 501),
             overall_best_scheduling = 500, iterations_where_restart = [], index = 8,
             iteration_time = 30, world = 25\<rparr>
   \<and> loop_test (stub False) (stub_parameters 100) 0
       \<lparr>population = [500, 501], list_statistics = replicate 9 (1001 / 2, 500, 501),
        overall_best_scheduling = 500, iterations_where_restart = [], index = 8,
        iteration_time = 30, world = 25\<rparr> = Inr (True, 26)
   \<and> generation_front (stub False) () (stub_parameters 100) () ()
       \<lparr>population = [500, 501], list_statistics = replicate 9 (1001 / 2, 500, 501),
        overall_best_scheduling = 500, iterations_where_restart = [], index = 8,
        iteration_time = 30, world = 26\<rparr>
     = Inr (780, True,
         \<lparr>population = [500, 501], list_statistics = replicate 10 (1001 / 2, 500, 501),
          overall_best_scheduling = 500, iterations_where_restart = [], index = 9,
          iteration_time = 30, world = 27\<rparr>)
   \<and> 10 \<le> length (replicate 10 (1001 / 2 :: real, 500 :: real, 501 :: real))
   \<and> index \<lparr>population = [500, 501 :: nat],
          list_statistics = replicate 10 (1001 / 2, 500, 501),
          overall_best_scheduling = 500, iterations_where_restart = [], index = 9,
          iteration_time = 30, world = 27 :: nat\<rparr> = int 8 + 1"
proof -
  let ?s0 = "\<lparr>population = [500, 501 :: nat], list_statistics = [(1001 / 2, 500, 501)],
        overall_best_scheduling = 500, iterations_where_restart = [], index = 0,
        iteration_time = 0, world = 1 :: nat\<rparr>"
  let ?s8 = "\<lparr>population = [500, 501 :: nat],
        list_statistics = replicate 9 (1001 / 2, 500, 501),
        overall_best_scheduling = 500, iterations_where_restart = [], index = 8,
        iteration_time = 30, world = 25 :: nat\<rparr>"
  let ?m9 = "\<lparr>population = [500, 501 :: nat],
        list_statistics = replicate 10 (1001 / 2, 500, 501),
        overall_best_scheduling = 500, iterations_where_restart = [], index = 9,
        iteration_time = 30, world = 27 :: nat\<rparr>"
  have i: "initial_state (stub False) () (stub_parameters 100) 1 = Inr ((), ?s0)"
    by (rule init_stub)
  have g: "generations (stub False) () (stub_parameters 100) () () () 0 8 ?s0 = Some ?s8"
    by (subst Suc_numerals(1)) (simp add: run_defs replicate_unfold)
  have l: "loop_test (stub False) (stub_parameters 100) 0 ?s8 = Inr (True, 26)"
    by (simp add: run_defs replicate_unfold)
  have f: "generation_front (stub False) () (stub_parameters 100) () () (?s8\<lparr>world := 26\<rparr>)
             = Inr (780, True, ?m9)"
    by (simp add: run_defs replicate_unfold)
  from stagnation_test_iff[OF i g l f] have "10 \<le> length (list_statistics ?m9)"
    and "index ?m9 = int 8 + 1" by simp_all
  with i g l f show ?thesis by (simp add: replicate_unfold)
qed

section \<open>Statistics and restarts\<close>

text \<open>
  C10. In a generation that restarts the population, the statistics entry appended is
  computed from the population returned by \<^verbatim>\<open>update_population\<close>, before
  \<^verbatim>\<open>restart_population\<close> replaces it. The next generation applies
  \<^verbatim>\<open>update_population\<close> to the restarted population and appends the statistics of
  the result: the restarted population first shows in that entry.
\<close>

theorem restart_statistics_from_pre_restart_population:
  assumes "loop_test c ps t0 s = Inr (True, w)"
    and "generation_front c fl ps sn inb (s\<lparr>world := w\<rparr>) = Inr (t, r, m)"
    and "is_convergent c (population m) thr \<or> r"
    and "generation_back c fl ps thr (t, r, m) = Inr s'"
  shows "update_population c (population s) fl ps sn inb (snd (time_time c w))
           = Inr (population m, world m)
       \<and> list_statistics s' = list_statistics s @ [population_statistics c (population m)]
       \<and> iterations_where_restart s' = iterations_where_restart s @ [index s + 1]
       \<and> index s' = index s + 1
       \<and> (\<exists>p. ps ''preserved_prop'' = Some p \<and>
             population s' = fst (restart_population c (population m) fl p (world m)))
       \<and> (\<forall>w' t' r' m'. loop_test c ps t0 s' = Inr (True, w') \<longrightarrow>
             generation_front c fl ps sn inb (s'\<lparr>world := w'\<rparr>) = Inr (t', r', m') \<longrightarrow>
             update_population c (population s') fl ps sn inb (snd (time_time c w'))
               = Inr (population m', world m') \<and>
             list_statistics m' = list_statistics s' @ [population_statistics c (population m')])"
proof -
  note f = generation_front_Inr[OF assms(2)]
  note b = generation_back_Inr[OF assms(4)]
  have 1: "update_population c (population s) fl ps sn inb (snd (time_time c w))
           = Inr (population m, world m)" using f(5) by simp
  have 2: "list_statistics s' = list_statistics s @ [population_statistics c (population m)]"
    using f(2) b(2) by simp
  have 3: "iterations_where_restart s' = iterations_where_restart s @ [index s + 1]"
    using b(4)[OF assms(3)] f(1,3) by simp
  have 4: "index s' = index s + 1" using f(1) b(1) by simp
  from b(4)[OF assms(3)] obtain p where p: "getitem ps ''preserved_prop'' = Inr p"
    and pop: "population s' = fst (restart_population c (population m) fl p (world m))"
    by blast
  from p have "ps ''preserved_prop'' = Some p"
    by (simp add: getitem_def split: option.splits)
  with pop have 5: "\<exists>p. ps ''preserved_prop'' = Some p \<and>
             population s' = fst (restart_population c (population m) fl p (world m))"
    by blast
  have 6: "\<forall>w' t' r' m'. loop_test c ps t0 s' = Inr (True, w') \<longrightarrow>
             generation_front c fl ps sn inb (s'\<lparr>world := w'\<rparr>) = Inr (t', r', m') \<longrightarrow>
             update_population c (population s') fl ps sn inb (snd (time_time c w'))
               = Inr (population m', world m') \<and>
             list_statistics m' = list_statistics s' @ [population_statistics c (population m')]"
  proof (intro allI impI)
    fix w' t' r' m'
    assume "generation_front c fl ps sn inb (s'\<lparr>world := w'\<rparr>) = Inr (t', r', m')"
    from generation_front_Inr(2,5)[OF this]
    show "update_population c (population s') fl ps sn inb (snd (time_time c w'))
               = Inr (population m', world m') \<and>
          list_statistics m' = list_statistics s' @ [population_statistics c (population m')]"
      by simp
  qed
  show ?thesis using 1 2 3 4 5 6 by blast
qed

text \<open>
  A generation of the test double whose population is always convergent: the entry
  appended is that of \<open>[500, 501]\<close>, not that of the restarted \<open>[500, 900]\<close>.
\<close>

theorem restart_statistics_from_pre_restart_population_witness:
  "loop_test (stub True) (stub_parameters 100) 0
       \<lparr>population = [500, 501], list_statistics = [(1001 / 2, 500, 501)],
        overall_best_scheduling = 500, iterations_where_restart = [], index = 0,
        iteration_time = 0, world = 1\<rparr> = Inr (True, 2)
   \<and> generation_front (stub True) () (stub_parameters 100) () ()
       \<lparr>population = [500, 501], list_statistics = [(1001 / 2, 500, 501)],
        overall_best_scheduling = 500, iterations_where_restart = [], index = 0,
        iteration_time = 0, world = 2\<rparr>
     = Inr (60, False,
         \<lparr>population = [500, 501],
          list_statistics = [(1001 / 2, 500, 501), (1001 / 2, 500, 501)],
          overall_best_scheduling = 500, iterations_where_restart = [], index = 1,
          iteration_time = 0, world = 3\<rparr>)
   \<and> is_convergent (stub True) [500, 501] ()
   \<and> generation_back (stub True) () (stub_parameters 100) ()
       (60, False,
         \<lparr>population = [500, 501],
          list_statistics = [(1001 / 2, 500, 501), (1001 / 2, 500, 501)],
          overall_best_scheduling = 500, iterations_where_restart = [], index = 1,
          iteration_time = 0, world = 3\<rparr>)
     = Inr \<lparr>population = [500, 900],
            list_statistics = [(1001 / 2, 500, 501), (1001 / 2, 500, 501)],
            overall_best_scheduling = 500, iterations_where_restart = [1], index = 1,
            iteration_time = 30, world = 4\<rparr>
   \<and> population_statistics (stub True) [500, 501] = (1001 / 2, 500, 501)
   \<and> population_statistics (stub True) [500, 900] = (700, 500, 900)"
proof -
  let ?s = "\<lparr>population = [500, 501 :: nat], list_statistics = [(1001 / 2, 500, 501)],
        overall_best_scheduling = 500, iterations_where_restart = [], index = 0,
        iteration_time = 0, world = 1 :: nat\<rparr>"
  let ?m = "\<lparr>population = [500, 501 :: nat],
          list_statistics = [(1001 / 2, 500, 501), (1001 / 2, 500, 501)],
          overall_best_scheduling = 500, iterations_where_restart = [], index = 1,
          iteration_time = 0, world = 3 :: nat\<rparr>"
  let ?s' = "\<lparr>population = [500, 900 :: nat],
            list_statistics = [(1001 / 2, 500, 501), (1001 / 2, 500, 501)],
            overall_best_scheduling = 500, iterations_where_restart = [1], index = 1,
            iteration_time = 30, world = 4 :: nat\<rparr>"
  have l: "loop_test (stub True) (stub_parameters 100) 0 ?s = Inr (True, 2)"
    by (simp add: run_defs)
  have f: "generation_front (stub True) () (stub_parameters 100) () () (?s\<lparr>world := 2\<rparr>)
             = Inr (60, False, ?m)"
    by (simp add: run_defs)
  have cv: "is_convergent (stub True) (population ?m) () \<or> False"
    by (simp add: stub_fields)
  have b: "generation_back (stub True) () (stub_parameters 100) () (60, False, ?m) = Inr ?s'"
    by (simp add: run_defs)
  from restart_statistics_from_pre_restart_population[OF l f cv b]
  have "list_statistics ?s' = list_statistics ?s @ [population_statistics (stub True) (population ?m)]"
    by blast
  then have "population_statistics (stub True) [500, 501] = (1001 / 2, 500, 501)" by simp
  moreover have "population_statistics (stub True) [500, 900] = (700, 500, 900)"
    by (simp add: stub_fields)
  ultimately show ?thesis using l f cv b by simp
qed

section \<open>The run as a whole\<close>

text \<open>
  \<^verbatim>\<open>memetic_heuristic\<close> returns exactly when the loop test fails after some number of
  completed generations, and then it returns the history, the best schedule and the
  restart list of the state reached.
\<close>

lemma memetic_heuristic_stops:
  assumes "time_time c w = (t0, w0)"
    and "initial_state c fl ps w0 = Inr (thr, s0)"
    and "generations c fl ps (create_swap_neighbors c fl) (create_insert_neighbors c fl)
           thr t0 g s0 = Some s"
    and "loop_test c ps t0 s = Inr (False, w')"
  shows "memetic_heuristic c fl ps w =
           Some (Inr (list_statistics s, overall_best_scheduling s,
                      iterations_where_restart s))"
  using memetic_loop_stops[OF assms(3,4)] assms(1,2)
  by (simp add: memetic_heuristic_def Let_def)

lemma memetic_heuristic_returns:
  assumes "time_time c w = (t0, w0)"
    and "initial_state c fl ps w0 = Inr (thr, s0)"
    and "memetic_heuristic c fl ps w = Some (Inr (stats, best, rs))"
  shows "\<exists>g s w'. generations c fl ps (create_swap_neighbors c fl)
                     (create_insert_neighbors c fl) thr t0 g s0 = Some s \<and>
           loop_test c ps t0 s = Inr (False, w') \<and>
           stats = list_statistics s \<and> best = overall_best_scheduling s \<and>
           rs = iterations_where_restart s"
proof -
  from assms obtain sf where
    l: "memetic_loop c fl ps (create_swap_neighbors c fl) (create_insert_neighbors c fl)
          thr t0 s0 = Some (Inr sf)" and
    r: "stats = list_statistics sf" "best = overall_best_scheduling sf"
       "rs = iterations_where_restart sf"
    by (auto simp: memetic_heuristic_def Let_def split: option.splits sum.splits)
  from memetic_loop_returns[OF l] obtain g s w' where
    "generations c fl ps (create_swap_neighbors c fl) (create_insert_neighbors c fl)
       thr t0 g s0 = Some s" "loop_test c ps t0 s = Inr (False, w')" "sf = s\<lparr>world := w'\<rparr>"
    by blast
  with r show ?thesis by (intro exI[of _ g] exI[of _ s] exI[of _ w']) simp
qed

lemma generations_after_stop:
  assumes "generations c fl ps sn inb thr t0 g s0 = Some s"
    and "loop_test c ps t0 s = Inr (False, w)"
    and "g < h"
  shows "generations c fl ps sn inb thr t0 h s0 = None"
proof -
  have st: "loop_step c fl ps sn inb thr t0 s = None"
    using assms(2) by (simp add: loop_step_def)
  have "generations c fl ps sn inb thr t0 (Suc g) s0 = None"
    unfolding generations_Suc_back using assms(1) st by simp
  moreover have "h = Suc g + (h - Suc g)" using assms(3) by simp
  ultimately show ?thesis
    using generations_add[of c fl ps sn inb thr t0 "Suc g" "h - Suc g" s0] by simp
qed

text \<open>
  C7. The history starts as the one entry computed from the initial population. After
  \<open>g\<close> completed generations it holds \<open>g + 1\<close> entries; one more generation appends
  one entry and changes none; whatever the number of further generations, the first
  \<open>g + 1\<close> entries stay as they were. When \<^verbatim>\<open>memetic_heuristic\<close> returns, the loop
  test has failed after some number \<open>g\<close> of completed generations and no generation
  follows; the history returned is that of the state reached then, and it holds
  \<open>g + 1\<close> entries.
\<close>

theorem statistics_append_only:
  assumes "initial_state c fl ps w0 = Inr (thr, s0)"
  shows "list_statistics s0 = [population_statistics c (population s0)]
       \<and> (\<forall>g s. generations c fl ps sn inb thr t0 g s0 = Some s \<longrightarrow>
             length (list_statistics s) = g + 1 \<and>
             (\<forall>s'. loop_step c fl ps sn inb thr t0 s = Some s' \<longrightarrow>
                (\<exists>e. list_statistics s' = list_statistics s @ [e])) \<and>
             (\<forall>h sh. generations c fl ps sn inb thr t0 h s = Some sh \<longrightarrow>
                take (g + 1) (list_statistics sh) = list_statistics s))
       \<and> (\<forall>w t1 stats best rs. time_time c w = (t1, w0) \<longrightarrow>
             memetic_heuristic c fl ps w = Some (Inr (stats, best, rs)) \<longrightarrow>
             (\<exists>g s w'. generations c fl ps (create_swap_neighbors c fl)
                       (create_insert_neighbors c fl) thr t1 g s0 = Some s \<and>
                    loop_test c ps t1 s = Inr (False, w') \<and>
                    (\<forall>h. g < h \<longrightarrow>
                       generations c fl ps (create_swap_neighbors c fl)
                         (create_insert_neighbors c fl) thr t1 h s0 = None) \<and>
                    stats = list_statistics s \<and> length stats = g + 1))"
proof -
  note i = initial_state_Inr[OF assms]
  have len: "length (list_statistics s) = g + 1"
    if "generations c fl ps sn' inb' thr t1 g s0 = Some s" for sn' inb' t1 g s
    using generations_facts[OF that] i(4) by simp
  have 2: "\<forall>g s. generations c fl ps sn inb thr t0 g s0 = Some s \<longrightarrow>
             length (list_statistics s) = g + 1 \<and>
             (\<forall>s'. loop_step c fl ps sn inb thr t0 s = Some s' \<longrightarrow>
                (\<exists>e. list_statistics s' = list_statistics s @ [e])) \<and>
             (\<forall>h sh. generations c fl ps sn inb thr t0 h s = Some sh \<longrightarrow>
                take (g + 1) (list_statistics sh) = list_statistics s)"
  proof (intro allI impI conjI)
    fix g s assume g: "generations c fl ps sn inb thr t0 g s0 = Some s"
    show "length (list_statistics s) = g + 1" by (rule len[OF g])
    { fix s' assume "loop_step c fl ps sn inb thr t0 s = Some s'"
      then show "\<exists>e. list_statistics s' = list_statistics s @ [e]"
        by (rule loop_step_facts(2)) }
    { fix h sh assume "generations c fl ps sn inb thr t0 h s = Some sh"
      from generations_facts[OF this]
      show "take (g + 1) (list_statistics sh) = list_statistics s"
        using len[OF g] by simp }
  qed
  have 3: "\<forall>w t1 stats best rs. time_time c w = (t1, w0) \<longrightarrow>
             memetic_heuristic c fl ps w = Some (Inr (stats, best, rs)) \<longrightarrow>
             (\<exists>g s w'. generations c fl ps (create_swap_neighbors c fl)
                       (create_insert_neighbors c fl) thr t1 g s0 = Some s \<and>
                    loop_test c ps t1 s = Inr (False, w') \<and>
                    (\<forall>h. g < h \<longrightarrow>
                       generations c fl ps (create_swap_neighbors c fl)
                         (create_insert_neighbors c fl) thr t1 h s0 = None) \<and>
                    stats = list_statistics s \<and> length stats = g + 1)"
  proof (intro allI impI)
    fix w t1 stats best rs
    assume t: "time_time c w = (t1, w0)"
      and m: "memetic_heuristic c fl ps w = Some (Inr (stats, best, rs))"
    from memetic_heuristic_returns[OF t assms m] obtain g s w' where
      g: "generations c fl ps (create_swap_neighbors c fl) (create_insert_neighbors c fl)
            thr t1 g s0 = Some s" and l: "loop_test c ps t1 s = Inr (False, w')"
      and s: "stats = list_statistics s" by blast
    have n: "\<forall>h. g < h \<longrightarrow>
                       generations c fl ps (create_swap_neighbors c fl)
                         (create_insert_neighbors c fl) thr t1 h s0 = None"
      using generations_after_stop[OF g l] by blast
    from len[OF g] g l n s
    show "\<exists>g s w'. generations c fl ps (create_swap_neighbors c fl)
                       (create_insert_neighbors c fl) thr t1 g s0 = Some s \<and>
                    loop_test c ps t1 s = Inr (False, w') \<and>
                    (\<forall>h. g < h \<longrightarrow>
                       generations c fl ps (create_swap_neighbors c fl)
                         (create_insert_neighbors c fl) thr t1 h s0 = None) \<and>
                    stats = list_statistics s \<and> length stats = g + 1" by blast
  qed
  show ?thesis using i(4) 2 3 by blast
qed

text \<open>
  A run of the test double with a limit of one minute: one generation, two entries.
\<close>

theorem statistics_append_only_witness:
  "initial_state (stub False) () (stub_parameters 1) 1 =
     Inr ((), \<lparr>population = [500, 501], list_statistics = [(1001 / 2, 500, 501)],
               overall_best_scheduling = 500, iterations_where_restart = [], index = 0,
               iteration_time = 0, world = 1\<rparr>)
   \<and> time_time (stub False) 0 = (0, 1)
   \<and> memetic_heuristic (stub False) () (stub_parameters 1) 0 =
       Some (Inr ([(1001 / 2, 500, 501), (1001 / 2, 500, 501)], 500, []))
   \<and> generations (stub False) () (stub_parameters 1) () () () 0 1
       \<lparr>population = [500, 501], list_statistics = [(1001 / 2, 500, 501)],
        overall_best_scheduling = 500, iterations_where_restart = [], index = 0,
        iteration_time = 0, world = 1\<rparr>
     = Some \<lparr>population = [500, 501],
             list_statistics = [(1001 / 2, 500, 501), (1001 / 2, 500, 501)],
             overall_best_scheduling = 500, iterations_where_restart = [], index = 1,
             iteration_time = 30, world = 4\<rparr>
   \<and> loop_test (stub False) (stub_parameters 1) 0
       \<lparr>population = [500, 501],
        list_statistics = [(1001 / 2, 500, 501), (1001 / 2, 500, 501)],
        overall_best_scheduling = 500, iterations_where_restart = [], index = 1,
        iteration_time = 30, world = 4\<rparr> = Inr (False, 5)
   \<and> generations (stub False) () (stub_parameters 1) () () () 0 2
       \<lparr>population = [500, 501], list_statistics = [(1001 / 2, 500, 501)],
        overall_best_scheduling = 500, iterations_where_restart = [], index = 0,
        iteration_time = 0, world = 1\<rparr> = None
   \<and> length [(1001 / 2 :: real, 500 :: real, 501 :: real), (1001 / 2, 500, 501)] = 1 + 1"
proof -
  let ?s0 = "\<lparr>population = [500, 501 :: nat], list_statistics = [(1001 / 2, 500, 501)],
        overall_best_scheduling = 500, iterations_where_restart = [], index = 0,
        iteration_time = 0, world = 1 :: nat\<rparr>"
  let ?s1 = "\<lparr>population = [500, 501 :: nat],
        list_statistics = [(1001 / 2, 500, 501), (1001 / 2, 500, 501)],
        overall_best_scheduling = 500, iterations_where_restart = [], index = 1,
        iteration_time = 30, world = 4 :: nat\<rparr>"
  have i: "initial_state (stub False) () (stub_parameters 1) 1 = Inr ((), ?s0)"
    by (rule init_stub)
  have t: "time_time (stub False) 0 = (0, 1)" by (simp add: stub_fields)
  have g: "generations (stub False) () (stub_parameters 1) () () () 0 1 ?s0 = Some ?s1"
    by (simp add: run_defs)
  have l: "loop_test (stub False) (stub_parameters 1) 0 ?s1 = Inr (False, 5)"
    by (simp add: run_defs)
  have m: "memetic_heuristic (stub False) () (stub_parameters 1) 0 =
       Some (Inr ([(1001 / 2, 500, 501), (1001 / 2, 500, 501)], 500, []))"
    using memetic_heuristic_stops[OF t i, of 1 ?s1 5] g l by simp
  note th = statistics_append_only[OF i, of "()" "()" 0]
  from th g have a: "length (list_statistics ?s1) = 1 + 1" by blast
  from th t m obtain g' s' w' where
    g': "generations (stub False) () (stub_parameters 1)
           (create_swap_neighbors (stub False) ()) (create_insert_neighbors (stub False) ())
           () 0 g' ?s0 = Some s'"
    and n: "\<forall>h. g' < h \<longrightarrow> generations (stub False) () (stub_parameters 1)
           (create_swap_neighbors (stub False) ()) (create_insert_neighbors (stub False) ())
           () 0 h ?s0 = None"
    and ln: "length [(1001 / 2 :: real, 500 :: real, 501 :: real), (1001 / 2, 500, 501)]
               = g' + 1"
    by blast
  from ln have "g' = 1" by simp
  with n have b: "generations (stub False) () (stub_parameters 1) () () () 0 2 ?s0 = None"
    by simp
  from i t m g l a b show ?thesis by simp
qed

section \<open>The size of the population\<close>

lemma update_population_length:
  assumes "\<forall>pop a b d e w. length (fst (crossover c fl pop a b d e w)) = length pop"
    and "\<forall>pop a b w. length (fst (mutation c fl pop a b w)) = length pop"
    and "\<forall>pop a b d e f w. length (fst (local_search c pop a b d e sn inb f w)) = length pop"
    and "update_population c pop fl ps sn inb w = Inr (pop', w')"
  shows "length pop' = length pop"
proof -
  from assms(4) obtain c1 c2 cp g ms mi ul where
    k: "getitem ps ''cross_1_point_prob'' = Inr c1" "getitem ps ''cross_2_points_prob'' = Inr c2"
       "getitem ps ''cross_position_prob'' = Inr cp" "getitem ps ''gentrification'' = Inr g"
       "getitem ps ''mut_swap_prob'' = Inr ms" "getitem ps ''mut_insert_prob'' = Inr mi"
       "getitem ps ''use_ls'' = Inr ul"
    unfolding update_population_def case_prod_beta and_then_eq_Inr by blast
  define x1 where "x1 = crossover c fl pop c1 c2 cp g w"
  define x2 where "x2 = mutation c fl (fst x1) ms mi (snd x1)"
  have l2: "length (fst x2) = length pop"
    using assms(1,2) by (simp add: x2_def x1_def)
  show ?thesis
  proof (cases "ul \<noteq> 0")
    case False
    with assms(4) have "(pop', w') = x2"
      by (simp add: update_population_def case_prod_beta k x1_def x2_def)
    then have "pop' = fst x2" by (metis fst_conv)
    with l2 show ?thesis by simp
  next
    case True
    with assms(4) have "\<exists>a b d e f.
        local_search c (fst x2) a b d e sn inb f (snd x2) = (pop', w')"
      by (auto simp: update_population_def case_prod_beta k x1_def x2_def and_then_eq_Inr)
         blast
    then obtain a b d e f where
      "local_search c (fst x2) a b d e sn inb f (snd x2) = (pop', w')" by blast
    then have "pop' = fst (local_search c (fst x2) a b d e sn inb f (snd x2))"
      by simp
    with l2 assms(3) show ?thesis by simp
  qed
qed

text \<open>
  C5, as amended. The contracts of the collaborators: \<^verbatim>\<open>initial_pop\<close> returns
  \<open>pop_init_size\<close> schedules; \<^verbatim>\<open>crossover\<close>, \<^verbatim>\<open>mutation\<close> and \<^verbatim>\<open>local_search\<close>
  each return as many schedules as they are given; \<^verbatim>\<open>random_initial_pop\<close> returns as
  many as it is asked for, none when the number is negative. When moreover the
  preserved proportion is not negative, the population has \<open>pop_init_size\<close> members
  at the head of the loop after any number of generations, after
  \<^verbatim>\<open>update_population\<close> in the next generation, and at the end of that generation,
  restarted or not. The controller does not bring the size back by itself.
\<close>

theorem population_size_invariant:
  assumes "initial_state c fl ps w0 = Inr (thr, s0)"
    and "ps ''pop_init_size'' = Some (real N)"
    and "\<forall>rp dp bd w. length (fst (initial_pop c fl rp dp bd (real N) w)) = N"
    and "\<forall>pop a b d e w. length (fst (crossover c fl pop a b d e w)) = length pop"
    and "\<forall>pop a b w. length (fst (mutation c fl pop a b w)) = length pop"
    and "\<forall>pop a b d e f w. length (fst (local_search c pop a b d e sn inb f w)) = length pop"
    and "\<forall>n w. length (fst (random_initial_pop c fl n w)) = nat n"
    and "\<forall>p. ps ''preserved_prop'' = Some p \<longrightarrow> 0 \<le> p"
    and "generations c fl ps sn inb thr t0 g s0 = Some s"
  shows "length (population s) = N
       \<and> (\<forall>w t r m. loop_test c ps t0 s = Inr (True, w) \<longrightarrow>
             generation_front c fl ps sn inb (s\<lparr>world := w\<rparr>) = Inr (t, r, m) \<longrightarrow>
             length (population m) = N \<and>
             (\<forall>s'. generation_back c fl ps thr (t, r, m) = Inr s' \<longrightarrow>
                length (population s') = N))"
proof -
  have frt: "length (population m) = length (population s1)"
    if "generation_front c fl ps sn inb (s1\<lparr>world := w\<rparr>) = Inr (t, r, m)" for s1 w t r m
  proof -
    from generation_front_Inr(5)[OF that]
    have "update_population c (population s1) fl ps sn inb (snd (time_time c w))
            = Inr (population m, world m)" by simp
    from update_population_length[OF assms(4,5,6) this] show ?thesis .
  qed
  have bck: "length (population s') = length (population m)"
    if b: "generation_back c fl ps thr (t, r, m) = Inr s'" for t r m s'
  proof (cases "is_convergent c (population m) thr \<or> r")
    case True
    from generation_back_Inr(4)[OF b True] obtain p where
      p: "getitem ps ''preserved_prop'' = Inr p" and
      e: "population s' = fst (restart_population c (population m) fl p (world m))" by blast
    from p assms(8) have "0 \<le> p" by (simp add: getitem_Inr_iff)
    from restart_population_length[OF this assms(7)] e show ?thesis by simp
  next
    case False
    from generation_back_Inr(5)[OF b False] show ?thesis by simp
  qed
  have step: "length (population s2) = length (population s1)"
    if "loop_step c fl ps sn inb thr t0 s1 = Some s2" for s1 s2
    using that frt bck unfolding loop_step_Some by fastforce
  have run: "length (population s2) = length (population s1)"
    if "generations c fl ps sn inb thr t0 h s1 = Some s2" for h s1 s2
    using that
  proof (induction h arbitrary: s1)
    case 0
    then show ?case by simp
  next
    case (Suc h)
    then obtain sm where a: "loop_step c fl ps sn inb thr t0 s1 = Some sm"
      and b: "generations c fl ps sn inb thr t0 h sm = Some s2" by (auto split: option.splits)
    show ?case using Suc.IH[OF b] step[OF a] by simp
  qed
  from initial_state_Inr(6)[OF assms(1)] assms(2) obtain rp dp bd where
    "(population s0, world s0) = initial_pop c fl rp dp bd (real N) w0" by auto
  then have "population s0 = fst (initial_pop c fl rp dp bd (real N) w0)"
    by (metis fst_conv)
  then have "length (population s0) = N" using assms(3) by simp
  then have 1: "length (population s) = N" using run[OF assms(9)] by simp
  have 2: "\<forall>w t r m. loop_test c ps t0 s = Inr (True, w) \<longrightarrow>
             generation_front c fl ps sn inb (s\<lparr>world := w\<rparr>) = Inr (t, r, m) \<longrightarrow>
             length (population m) = N \<and>
             (\<forall>s'. generation_back c fl ps thr (t, r, m) = Inr s' \<longrightarrow>
                length (population s') = N)"
    using frt bck 1 by metis
  show ?thesis using 1 2 by blast
qed

text \<open>
  Three generations of the test double with a population that restarts every time.
\<close>

theorem population_size_invariant_witness:
  "initial_state (stub True) () (stub_parameters 100) 1 =
     Inr ((), \<lparr>population = [500, 501], list_statistics = [(1001 / 2, 500, 501)],
               overall_best_scheduling = 500, iterations_where_restart = [], index = 0,
               iteration_time = 0, world = 1\<rparr>)
   \<and> stub_parameters 100 ''pop_init_size'' = Some (real 2)
   \<and> (\<forall>rp dp bd w. length (fst (initial_pop (stub True) () rp dp bd (real 2) w)) = 2)
   \<and> (\<forall>pop a b d e w. length (fst (crossover (stub True) () pop a b d e w)) = length pop)
   \<and> (\<forall>pop a b w. length (fst (mutation (stub True) () pop a b w)) = length pop)
   \<and> (\<forall>pop a b d e f w.
         length (fst (local_search (stub True) pop a b d e () () f w)) = length pop)
   \<and> (\<forall>n w. length (fst (random_initial_pop (stub True) () n w)) = nat n)
   \<and> stub_parameters 100 ''preserved_prop'' = Some (1 / 2) \<and> (0 :: real) \<le> 1 / 2
   \<and> generations (stub True) () (stub_parameters 100) () () () 0 3
       \<lparr>population = [500, 501], list_statistics = [(1001 / 2, 500, 501)],
        overall_best_scheduling = 500, iterations_where_restart = [], index = 0,
        iteration_time = 0, world = 1\<rparr>
     = Some \<lparr>population = [500, 900],
             list_statistics = [(1001 / 2, 500, 501), (1001 / 2, 500, 501),
                                (700, 500, 900), (700, 500, 900)],
             overall_best_scheduling = 500, iterations_where_restart = [1, 2, 3],
             index = 3, iteration_time = 30, world = 10\<rparr>
   \<and> length [500 :: nat, 900] = 2"
proof -
  let ?s0 = "\<lparr>population = [500, 501 :: nat], list_statistics = [(1001 / 2, 500, 501)],
        overall_best_scheduling = 500, iterations_where_restart = [], index = 0,
        iteration_time = 0, world = 1 :: nat\<rparr>"
  let ?s3 = "\<lparr>population = [500, 900 :: nat],
             list_statistics = [(1001 / 2, 500, 501), (1001 / 2, 500, 501),
                                (700, 500, 900), (700, 500, 900)],
             overall_best_scheduling = 500, iterations_where_restart = [1, 2, 3],
             index = 3, iteration_time = 30, world = 10 :: nat\<rparr>"
  have i: "initial_state (stub True) () (stub_parameters 100) 1 = Inr ((), ?s0)"
    by (rule init_stub)
  have n: "stub_parameters 100 ''pop_init_size'' = Some (real 2)"
    by (simp add: stub_parameters_def)
  have ip: "\<forall>rp dp bd w. length (fst (initial_pop (stub True) () rp dp bd (real 2) w)) = 2"
    by (simp add: stub_def)
  have cx: "\<forall>pop a b d e w. length (fst (crossover (stub True) () pop a b d e w)) = length pop"
    by (simp add: stub_def)
  have mu: "\<forall>pop a b w. length (fst (mutation (stub True) () pop a b w)) = length pop"
    by (simp add: stub_def)
  have ls: "\<forall>pop a b d e f w.
         length (fst (local_search (stub True) pop a b d e () () f w)) = length pop"
    by (simp add: stub_def)
  have rp: "\<forall>n w. length (fst (random_initial_pop (stub True) () n w)) = nat n"
    by (simp add: stub_fields)
  have pv: "stub_parameters 100 ''preserved_prop'' = Some (1 / 2)"
    by (simp add: stub_parameters_def)
  then have pp: "\<forall>p. stub_parameters 100 ''preserved_prop'' = Some p \<longrightarrow> 0 \<le> p"
    by simp
  have g: "generations (stub True) () (stub_parameters 100) () () () 0 3 ?s0 = Some ?s3"
    by (subst Suc_numerals(2)) (simp add: run_defs)
  from population_size_invariant[OF i n ip cx mu ls rp pp g]
  have "length (population ?s3) = 2" by blast
  with i n ip cx mu ls rp pv g show ?thesis by simp
qed

lemma getitem_upd:
  "getitem (ps(k \<mapsto> v)) k' = (if k' = k then Inr v else getitem ps k')"
  by (simp add: getitem_def)

text \<open>
  C5 as stated fails: the test double meets every contract, and with a preserved
  proportion of minus one half the first restart keeps \<^verbatim>\<open>sorted_list[:-1]\<close>, one
  schedule, and asks for three fresh ones. The population goes from two schedules to
  four.
\<close>

theorem negative_preserved_prop_grows:
  "initial_state (stub True) () ((stub_parameters 100)(''preserved_prop'' \<mapsto> - (1 / 2))) 1 =
     Inr ((), \<lparr>population = [500, 501], list_statistics = [(1001 / 2, 500, 501)],
               overall_best_scheduling = 500, iterations_where_restart = [], index = 0,
               iteration_time = 0, world = 1\<rparr>)
   \<and> ((stub_parameters 100)(''preserved_prop'' \<mapsto> - (1 / 2))) ''pop_init_size'' = Some 2
   \<and> (\<forall>rp dp bd w. length (fst (initial_pop (stub True) () rp dp bd 2 w)) = 2)
   \<and> (\<forall>pop a b d e w. length (fst (crossover (stub True) () pop a b d e w)) = length pop)
   \<and> (\<forall>pop a b w. length (fst (mutation (stub True) () pop a b w)) = length pop)
   \<and> (\<forall>pop a b d e f w.
         length (fst (local_search (stub True) pop a b d e () () f w)) = length pop)
   \<and> (\<forall>n w. length (fst (random_initial_pop (stub True) () n w)) = nat n)
   \<and> loop_step (stub True) () ((stub_parameters 100)(''preserved_prop'' \<mapsto> - (1 / 2)))
         () () () 0
       \<lparr>population = [500, 501], list_statistics = [(1001 / 2, 500, 501)],
        overall_best_scheduling = 500, iterations_where_restart = [], index = 0,
        iteration_time = 0, world = 1\<rparr>
     = Some \<lparr>population = [500, 900, 900, 900],
             list_statistics = [(1001 / 2, 500, 501), (1001 / 2, 500, 501)],
             overall_best_scheduling = 500, iterations_where_restart = [1], index = 1,
             iteration_time = 30, world = 4\<rparr>
   \<and> length [500 :: nat, 900, 900, 900] \<noteq> 2"
proof -
  let ?ps = "(stub_parameters 100)(''preserved_prop'' \<mapsto> - (1 / 2))"
  have gi: "getitem ?ps ''preserved_prop'' = Inr (- (1 / 2))"
    "getitem ?ps ''time_limit'' = Inr 100"
    "getitem ?ps ''pop_init_size'' = Inr 2"
    "getitem ?ps ''random_prop'' = Inr 1"
    "getitem ?ps ''deter_prop'' = Inr 0"
    "getitem ?ps ''best_deter'' = Inr 0"
    by (simp_all add: getitem_upd getitem_stub)
  have up: "update_population (stub True) pop () ?ps () () w = Inr (pop, w)" for pop w
    by (simp add: update_population_def getitem_def stub_parameters_def stub_def)
  have 1: "initial_state (stub True) () ?ps 1 =
     Inr ((), \<lparr>population = [500, 501], list_statistics = [(1001 / 2, 500, 501)],
               overall_best_scheduling = 500, iterations_where_restart = [], index = 0,
               iteration_time = 0, world = 1\<rparr>)"
    by (simp add: initial_state_def gi initial_pop_stub stub_fields py_min_key_def)
  have 2: "?ps ''pop_init_size'' = Some 2" by (simp add: stub_parameters_def)
  have 3: "\<forall>rp dp bd w. length (fst (initial_pop (stub True) () rp dp bd 2 w)) = 2"
    by (simp add: initial_pop_stub)
  have 4: "\<forall>pop a b d e w. length (fst (crossover (stub True) () pop a b d e w)) = length pop"
    by (simp add: stub_def)
  have 5: "\<forall>pop a b w. length (fst (mutation (stub True) () pop a b w)) = length pop"
    by (simp add: stub_def)
  have 6: "\<forall>pop a b d e f w.
         length (fst (local_search (stub True) pop a b d e () () f w)) = length pop"
    by (simp add: stub_def)
  have 7: "\<forall>n w. length (fst (random_initial_pop (stub True) () n w)) = nat n"
    by (simp add: stub_fields)
  have c: "\<lceil>- 1 :: real\<rceil> = - 1" by (simp add: ceiling_def)
  have 8: "loop_step (stub True) () ?ps () () () 0
       \<lparr>population = [500, 501], list_statistics = [(1001 / 2, 500, 501)],
        overall_best_scheduling = 500, iterations_where_restart = [], index = 0,
        iteration_time = 0, world = 1\<rparr>
     = Some \<lparr>population = [500, 900, 900, 900],
             list_statistics = [(1001 / 2, 500, 501), (1001 / 2, 500, 501)],
             overall_best_scheduling = 500, iterations_where_restart = [1], index = 1,
             iteration_time = 30, world = 4\<rparr>"
    by (simp add: loop_step_def loop_test_def generation_def generation_front_def
          generation_back_def gi up stub_fields py_min_key_def stagnation_def Let_def
          restart_population_def extract_best_from_population_def py_int_def py_slice_to_def
          py_mul_stub numeral_3_eq_3 c)
  from 1 2 3 4 5 6 7 8 show ?thesis by simp
qed

section \<open>The rate of restarts\<close>

lemma loop_step_deterministic:
  assumes "loop_step c fl ps sn inb thr t0 s = Some s'"
    and "loop_test c ps t0 s = Inr (True, w)"
    and "generation_front c fl ps sn inb (s\<lparr>world := w\<rparr>) = Inr (t, r, m)"
  shows "generation_back c fl ps thr (t, r, m) = Inr s'"
  using assms unfolding loop_step_Some by auto

lemma generations_split:
  assumes "generations c fl ps sn inb thr t0 g2 s0 = Some s2" and "g1 < g2"
    and "generations c fl ps sn inb thr t0 g1 s0 = Some s1"
  shows "\<exists>x. loop_step c fl ps sn inb thr t0 s1 = Some x \<and>
           generations c fl ps sn inb thr t0 (g2 - Suc g1) x = Some s2"
proof -
  have e: "g2 = Suc g1 + (g2 - Suc g1)" using assms(2) by simp
  from assms(1) have "generations c fl ps sn inb thr t0 (Suc g1 + (g2 - Suc g1)) s0 = Some s2"
    using e by simp
  then obtain x where x: "generations c fl ps sn inb thr t0 (Suc g1) s0 = Some x"
    and r: "generations c fl ps sn inb thr t0 (g2 - Suc g1) x = Some s2"
    unfolding generations_add by (auto split: option.splits)
  from x assms(3) have "loop_step c fl ps sn inb thr t0 s1 = Some x"
    unfolding generations_Suc_back by simp
  with r show ?thesis by blast
qed

text \<open>
  C6. In a run, when the stagnation flag is set at the generation that follows \<open>g1\<close>
  completed ones and again at the generation that follows \<open>g2 > g1\<close> completed ones,
  the two generation indices are at least ten apart. The convergence test has no such
  guard: whenever the population of a generation is convergent, the generation records
  a restart, whatever the restart list holds; in the test double whose population is
  always convergent, generations 1, 2 and 3 all restart.
\<close>

theorem stagnation_restarts_rate_limited:
  assumes "initial_state c fl ps w0 = Inr (thr, s0)"
    and "generations c fl ps sn inb thr t0 g1 s0 = Some s1"
    and "loop_test c ps t0 s1 = Inr (True, w1)"
    and "generation_front c fl ps sn inb (s1\<lparr>world := w1\<rparr>) = Inr (t1, True, m1)"
    and "g1 < g2"
    and "generations c fl ps sn inb thr t0 g2 s0 = Some s2"
    and "loop_test c ps t0 s2 = Inr (True, w2)"
    and "generation_front c fl ps sn inb (s2\<lparr>world := w2\<rparr>) = Inr (t2, True, m2)"
  shows "index m1 = int g1 + 1 \<and> index m2 = int g2 + 1 \<and> index m1 + 10 \<le> index m2
       \<and> (\<forall>s t r m s'. generation_front c fl ps sn inb s = Inr (t, r, m) \<longrightarrow>
             is_convergent c (population m) thr \<longrightarrow>
             generation_back c fl ps thr (t, r, m) = Inr s' \<longrightarrow>
             iterations_where_restart s' = iterations_where_restart s @ [index s + 1])
       \<and> map_option iterations_where_restart
            (generations (stub True) () (stub_parameters 100) () () () 0 3
               \<lparr>population = [500, 501], list_statistics = [(1001 / 2, 500, 501)],
                overall_best_scheduling = 500, iterations_where_restart = [], index = 0,
                iteration_time = 0, world = 1\<rparr>) = Some [1, 2, 3]"
proof -
  note i = initial_state_Inr[OF assms(1)]
  note f1 = generation_front_Inr[OF assms(4)]
  note f2 = generation_front_Inr[OF assms(8)]
  have 1: "index m1 = int g1 + 1" using f1(1) generations_facts[OF assms(2)] i(1) by simp
  have 2: "index m2 = int g2 + 1" using f2(1) generations_facts[OF assms(6)] i(1) by simp
  from generations_split[OF assms(6,5,2)] obtain x where
    x: "loop_step c fl ps sn inb thr t0 s1 = Some x" and
    r: "generations c fl ps sn inb thr t0 (g2 - Suc g1) x = Some s2" by blast
  from loop_step_deterministic[OF x assms(3,4)]
  have b: "generation_back c fl ps thr (t1, True, m1) = Inr x" .
  from generation_back_Inr(4)[OF b]
  have "iterations_where_restart x = iterations_where_restart m1 @ [index m1]" by simp
  moreover from generations_facts[OF r] obtain ext where
    "iterations_where_restart s2 = iterations_where_restart x @ ext" by blast
  ultimately have mem: "index m1 \<in> set (iterations_where_restart s2)" by simp
  have "restart_inv s2"
    using generations_facts[OF assms(6)] initial_state_restart_inv[OF assms(1)] by blast
  then have so: "sorted (iterations_where_restart s2)"
    by (simp add: restart_inv_def strict_sorted_imp_sorted)
  from f2(4) have "stagnation (list_statistics m2) (iterations_where_restart s2) (index m2)"
    by simp
  then have "\<forall>r \<in> set (iterations_where_restart s2). r + 10 \<le> index m2"
    unfolding stagnation_iff[OF so] by blast
  with mem have 3: "index m1 + 10 \<le> index m2" by blast
  have 4: "\<forall>s t r m s'. generation_front c fl ps sn inb s = Inr (t, r, m) \<longrightarrow>
             is_convergent c (population m) thr \<longrightarrow>
             generation_back c fl ps thr (t, r, m) = Inr s' \<longrightarrow>
             iterations_where_restart s' = iterations_where_restart s @ [index s + 1]"
  proof (intro allI impI)
    fix s t r m s'
    assume f: "generation_front c fl ps sn inb s = Inr (t, r, m)"
      and cv: "is_convergent c (population m) thr"
      and b: "generation_back c fl ps thr (t, r, m) = Inr s'"
    from generation_back_Inr(4)[OF b] cv generation_front_Inr(1,3)[OF f]
    show "iterations_where_restart s' = iterations_where_restart s @ [index s + 1]" by simp
  qed
  have 5: "map_option iterations_where_restart
            (generations (stub True) () (stub_parameters 100) () () () 0 3
               \<lparr>population = [500, 501], list_statistics = [(1001 / 2, 500, 501)],
                overall_best_scheduling = 500, iterations_where_restart = [], index = 0,
                iteration_time = 0, world = 1\<rparr>) = Some [1, 2, 3]"
    by (subst Suc_numerals(2)) (simp add: run_defs)
  show ?thesis using 1 2 3 4 5 by blast
qed

text \<open>
  The test double under a limit of 100 minutes stagnates from the start: the flag is set
  at generation 9 and next at generation 19.
\<close>

theorem stagnation_restarts_rate_limited_witness:
  "initial_state (stub False) () (stub_parameters 100) 1 =
     Inr ((), \<lparr>population = [500, 501], list_statistics = [(1001 / 2, 500, 501)],
               overall_best_scheduling = 500, iterations_where_restart = [], index = 0,
               iteration_time = 0, world = 1\<rparr>)
   \<and> generations (stub False) () (stub_parameters 100) () () () 0 8
       \<lparr>population = [500, 501], list_statistics = [(1001 / 2, 500, 501)],
        overall_best_scheduling = 500, iterations_where_restart = [], index = 0,
        iteration_time = 0, world = 1\<rparr>
     = Some \<lparr>population = [500, 501], list_statistics = replicate 9 (1001 / 2, 500, 501),
             overall_best_scheduling = 500, iterations_where_restart = [], index = 8,
             iteration_time = 30, world = 25\<rparr>
   \<and> loop_test (stub False) (stub_parameters 100) 0
       \<lparr>population = [500, 501], list_statistics = replicate 9 (1001 / 2, 500, 501),
        overall_best_scheduling = 500, iterations_where_restart = [], index = 8,
        iteration_time = 30, world = 25\<rparr> = Inr (True, 26)
   \<and> generation_front (stub False) () (stub_parameters 100) () ()
       \<lparr>population = [500, 501], list_statistics = replicate 9 (1001 / 2, 500, 501),
        overall_best_scheduling = 500, iterations_where_restart = [], index = 8,
        iteration_time = 30, world = 26\<rparr>
     = Inr (780, True,
         \<lparr>population = [500, 501], list_statistics = replicate 10 (1001 / 2, 500, 501),
          overall_best_scheduling = 500, iterations_where_restart = [], index = 9,
          iteration_time = 30, world = 27\<rparr>)
   \<and> (8 :: nat) < 18
   \<and> generations (stub False) () (stub_parameters 100) () () () 0 18
       \<lparr>population = [500, 501], list_statistics = [(1001 / 2, 500, 501)],
        overall_best_scheduling = 500, iterations_where_restart = [], index = 0,
        iteration_time = 0, world = 1\<rparr>
     = Some \<lparr>population = [500, 900],
             list_statistics =
               replicate 10 (1001 / 2, 500, 501) @ replicate 9 (700, 500, 900),
             overall_best_scheduling = 500, iterations_where_restart = [9], index = 18,
             iteration_time = 30, world = 55\<rparr>
   \<and> loop_test (stub False) (stub_parameters 100) 0
       \<lparr>population = [500, 900],
        list_statistics = replicate 10 (1001 / 2, 500, 501) @ replicate 9 (700, 500, 900),
        overall_best_scheduling = 500, iterations_where_restart = [9], index = 18,
        iteration_time = 30, world = 55\<rparr> = Inr (True, 56)
   \<and> generation_front (stub False) () (stub_parameters 100) () ()
       \<lparr>population = [500, 900],
        list_statistics = replicate 10 (1001 / 2, 500, 501) @ replicate 9 (700, 500, 900),
        overall_best_scheduling = 500, iterations_where_restart = [9], index = 18,
        iteration_time = 30, world = 56\<rparr>
     = Inr (1680, True,
         \<lparr>population = [500, 900],
          list_statistics =
            replicate 10 (1001 / 2, 500, 501) @ replicate 10 (700, 500, 900),
          overall_best_scheduling = 500, iterations_where_restart = [9], index = 19,
          iteration_time = 30, world = 57\<rparr>)
   \<and> (9 :: int) + 10 \<le> 19"
proof -
  let ?s0 = "\<lparr>population = [500, 501 :: nat], list_statistics = [(1001 / 2, 500, 501)],
        overall_best_scheduling = 500, iterations_where_restart = [], index = 0,
        iteration_time = 0, world = 1 :: nat\<rparr>"
  let ?s8 = "\<lparr>population = [500, 501 :: nat],
        list_statistics = replicate 9 (1001 / 2, 500, 501),
        overall_best_scheduling = 500, iterations_where_restart = [], index = 8,
        iteration_time = 30, world = 25 :: nat\<rparr>"
  let ?m9 = "\<lparr>population = [500, 501 :: nat],
        list_statistics = replicate 10 (1001 / 2, 500, 501),
        overall_best_scheduling = 500, iterations_where_restart = [], index = 9,
        iteration_time = 30, world = 27 :: nat\<rparr>"
  let ?s18 = "\<lparr>population = [500, 900 :: nat],
        list_statistics = replicate 10 (1001 / 2, 500, 501) @ replicate 9 (700, 500, 900),
        overall_best_scheduling = 500, iterations_where_restart = [9], index = 18,
        iteration_time = 30, world = 55 :: nat\<rparr>"
  let ?m19 = "\<lparr>population = [500, 900 :: nat],
        list_statistics = replicate 10 (1001 / 2, 500, 501) @ replicate 10 (700, 500, 900),
        overall_best_scheduling = 500, iterations_where_restart = [9], index = 19,
        iteration_time = 30, world = 57 :: nat\<rparr>"
  have i: "initial_state (stub False) () (stub_parameters 100) 1 = Inr ((), ?s0)"
    by (rule init_stub)
  have g1: "generations (stub False) () (stub_parameters 100) () () () 0 8 ?s0 = Some ?s8"
    by (subst Suc_numerals(1)) (simp add: run_defs replicate_unfold)
  have l1: "loop_test (stub False) (stub_parameters 100) 0 ?s8 = Inr (True, 26)"
    by (simp add: run_defs)
  have f1: "generation_front (stub False) () (stub_parameters 100) () () (?s8\<lparr>world := 26\<rparr>)
             = Inr (780, True, ?m9)"
    by (simp add: run_defs replicate_unfold)
  have lt: "(8 :: nat) < 18" by simp
  have g2: "generations (stub False) () (stub_parameters 100) () () () 0 18 ?s0 = Some ?s18"
    by (subst Suc_18) (simp add: run_defs replicate_unfold)
  have l2: "loop_test (stub False) (stub_parameters 100) 0 ?s18 = Inr (True, 56)"
    by (simp add: run_defs)
  have f2: "generation_front (stub False) () (stub_parameters 100) () () (?s18\<lparr>world := 56\<rparr>)
             = Inr (1680, True, ?m19)"
    by (simp add: run_defs replicate_unfold)
  from stagnation_restarts_rate_limited[OF i g1 l1 f1 lt g2 l2 f2]
  have "index ?m9 + 10 \<le> index ?m19" by blast
  then have "(9 :: int) + 10 \<le> 19" by simp
  with i g1 l1 f1 g2 l2 f2 show ?thesis by simp
qed

section \<open>The best schedule observed\<close>

lemma generation0_Inr:
  assumes "generation0 c fl z = Inr z'"
  shows "find_best_ordo_in_list (duree0 c) (population0 z') = Inr (best_ordo z')"
proof -
  define p3 where "p3 = fst (local_search0 c
      (fst (mutation0 c (fst (crossing c fl (population0 z) (snd (time_time0 c (world0 z)))))
         (snd (crossing c fl (population0 z) (snd (time_time0 c (world0 z)))))))
      (snd (mutation0 c (fst (crossing c fl (population0 z) (snd (time_time0 c (world0 z)))))
         (snd (crossing c fl (population0 z) (snd (time_time0 c (world0 z))))))))"
  from assms obtain b where b: "find_best_ordo_in_list (duree0 c) p3 = Inr b"
    and "population0 z' = p3" and "best_ordo z' = b"
    unfolding generation0_def case_prod_beta and_then_eq_Inr p3_def by auto
  then show ?thesis by simp
qed

text \<open>
  C1, as amended. In \<^verbatim>\<open>src/src/memetic.py\<close>, a generation never makes
  \<^verbatim>\<open>overall_best_scheduling\<close> longer; it either leaves it as it is or replaces it by
  the \<^verbatim>\<open>min\<close> of the population that \<^verbatim>\<open>update_population\<close> returned in this
  generation, and then that schedule is strictly shorter. So the duration of the best
  schedule does not increase over any number of generations. In \<^verbatim>\<open>src/memetic.py\<close>,
  \<^verbatim>\<open>best_ordo\<close> after a generation is the best schedule of that generation's
  population, whatever it was before.
\<close>

theorem best_observed_monotone:
  "(loop_step c fl ps sn inb thr t0 s = Some s' \<longrightarrow>
      duree c (overall_best_scheduling s') \<le> duree c (overall_best_scheduling s) \<and>
      (overall_best_scheduling s' = overall_best_scheduling s \<or>
       duree c (overall_best_scheduling s') < duree c (overall_best_scheduling s) \<and>
       (\<exists>w t r m. loop_test c ps t0 s = Inr (True, w) \<and>
          generation_front c fl ps sn inb (s\<lparr>world := w\<rparr>) = Inr (t, r, m) \<and>
          py_min_key (duree c) (population m) = Inr (overall_best_scheduling s'))))
   \<and> (generations c fl ps sn inb thr t0 g s = Some s'' \<longrightarrow>
        duree c (overall_best_scheduling s'') \<le> duree c (overall_best_scheduling s))
   \<and> (generation0 c0 fl0 z = Inr z' \<longrightarrow>
        find_best_ordo_in_list (duree0 c0) (population0 z') = Inr (best_ordo z'))"
proof (intro conjI impI)
  assume st: "loop_step c fl ps sn inb thr t0 s = Some s'"
  then obtain w t r m where
    tst: "loop_test c ps t0 s = Inr (True, w)" and
    fr: "generation_front c fl ps sn inb (s\<lparr>world := w\<rparr>) = Inr (t, r, m)" and
    bk: "generation_back c fl ps thr (t, r, m) = Inr s'"
    unfolding loop_step_Some by blast
  from generation_front_Inr(6)[OF fr] obtain bs where
    bs: "py_min_key (duree c) (population m) = Inr bs" and
    ob: "overall_best_scheduling m =
           (if duree c (overall_best_scheduling s) > duree c bs then bs
            else overall_best_scheduling s)" by auto
  have e: "overall_best_scheduling s' = overall_best_scheduling m"
    by (rule generation_back_Inr(3)[OF bk])
  show "duree c (overall_best_scheduling s') \<le> duree c (overall_best_scheduling s)"
    by (rule loop_step_facts(4)[OF st])
  show "overall_best_scheduling s' = overall_best_scheduling s \<or>
       duree c (overall_best_scheduling s') < duree c (overall_best_scheduling s) \<and>
       (\<exists>w t r m. loop_test c ps t0 s = Inr (True, w) \<and>
          generation_front c fl ps sn inb (s\<lparr>world := w\<rparr>) = Inr (t, r, m) \<and>
          py_min_key (duree c) (population m) = Inr (overall_best_scheduling s'))"
  proof (cases "duree c (overall_best_scheduling s) > duree c bs")
    case True
    then have "overall_best_scheduling s' = bs" using e ob by simp
    with True tst fr bs show ?thesis by blast
  next
    case False
    then show ?thesis using e ob by simp
  qed
next
  assume "generations c fl ps sn inb thr t0 g s = Some s''"
  from generations_facts[OF this]
  show "duree c (overall_best_scheduling s'') \<le> duree c (overall_best_scheduling s)" by blast
next
  assume "generation0 c0 fl0 z = Inr z'"
  then show "find_best_ordo_in_list (duree0 c0) (population0 z') = Inr (best_ordo z')"
    by (rule generation0_Inr)
qed

text \<open>
  One generation of each test double; the first starts from a state whose recorded best
  is not the shortest schedule of the population.
\<close>

theorem best_observed_monotone_witness:
  "loop_step (stub False) () (stub_parameters 100) () () () 0
       \<lparr>population = [500, 501], list_statistics = [(1001 / 2, 500, 501)],
        overall_best_scheduling = 501, iterations_where_restart = [], index = 0,
        iteration_time = 0, world = 1\<rparr>
     = Some \<lparr>population = [500, 501],
             list_statistics = [(1001 / 2, 500, 501), (1001 / 2, 500, 501)],
             overall_best_scheduling = 500, iterations_where_restart = [], index = 1,
             iteration_time = 30, world = 4\<rparr>
   \<and> generations (stub False) () (stub_parameters 100) () () () 0 1
       \<lparr>population = [500, 501], list_statistics = [(1001 / 2, 500, 501)],
        overall_best_scheduling = 501, iterations_where_restart = [], index = 0,
        iteration_time = 0, world = 1\<rparr>
     = Some \<lparr>population = [500, 501],
             list_statistics = [(1001 / 2, 500, 501), (1001 / 2, 500, 501)],
             overall_best_scheduling = 500, iterations_where_restart = [], index = 1,
             iteration_time = 30, world = 4\<rparr>
   \<and> duree (stub False) 500 < duree (stub False) 501
   \<and> generation0 stub0 ()
       \<lparr>population0 = [500, 501], best_ordo = 0, iteration_time0 = 0, world0 = 2\<rparr>
     = Inr \<lparr>population0 = [501, 502], best_ordo = 501, iteration_time0 = 1199 / 10,
            world0 = 4\<rparr>
   \<and> find_best_ordo_in_list (duree0 stub0) [501, 502] = Inr 501"
proof -
  let ?s = "\<lparr>population = [500, 501 :: nat], list_statistics = [(1001 / 2, 500, 501)],
        overall_best_scheduling = 501, iterations_where_restart = [], index = 0,
        iteration_time = 0, world = 1 :: nat\<rparr>"
  let ?s' = "\<lparr>population = [500, 501 :: nat],
        list_statistics = [(1001 / 2, 500, 501), (1001 / 2, 500, 501)],
        overall_best_scheduling = 500, iterations_where_restart = [], index = 1,
        iteration_time = 30, world = 4 :: nat\<rparr>"
  let ?z = "\<lparr>population0 = [500, 501 :: nat], best_ordo = 0, iteration_time0 = 0,
        world0 = 2 :: nat\<rparr>"
  let ?z' = "\<lparr>population0 = [501, 502 :: nat], best_ordo = 501,
        iteration_time0 = 1199 / 10, world0 = 4 :: nat\<rparr>"
  have st: "loop_step (stub False) () (stub_parameters 100) () () () 0 ?s = Some ?s'"
    by (simp add: run_defs)
  have g: "generations (stub False) () (stub_parameters 100) () () () 0 1 ?s = Some ?s'"
    by (simp add: run_defs)
  have z: "generation0 stub0 () ?z = Inr ?z'"
    by (simp add: run0_defs)
  from best_observed_monotone[of "stub False" "()" "stub_parameters 100" "()" "()" "()" 0
      ?s ?s' 1 ?s' stub0 "()" ?z ?z'] st g z
  have "duree (stub False) (overall_best_scheduling ?s') \<le> duree (stub False) (overall_best_scheduling ?s)"
    and "find_best_ordo_in_list (duree0 stub0) (population0 ?z') = Inr (best_ordo ?z')"
    by blast+
  then have "find_best_ordo_in_list (duree0 stub0) [501, 502] = Inr 501" by simp
  moreover have "duree (stub False) 500 < duree (stub False) 501" by (simp add: stub_fields)
  ultimately show ?thesis using st g z by simp
qed

text \<open>
  C1 as stated fails for \<^verbatim>\<open>src/memetic.py\<close>: in the test double whose mutation makes
  every schedule one unit longer, \<^verbatim>\<open>best_ordo\<close> has duration 501 after the first
  generation and 502 after the second.
\<close>

theorem best_ordo_regresses:
  "generation0 stub0 ()
       \<lparr>population0 = [500, 501], best_ordo = 0, iteration_time0 = 0, world0 = 2\<rparr>
     = Inr \<lparr>population0 = [501, 502], best_ordo = 501, iteration_time0 = 1199 / 10,
            world0 = 4\<rparr>
   \<and> loop_test0 stub0 0
       \<lparr>population0 = [501, 502], best_ordo = 501, iteration_time0 = 1199 / 10,
        world0 = 4\<rparr> = (True, 5)
   \<and> generation0 stub0 ()
       \<lparr>population0 = [501, 502], best_ordo = 501, iteration_time0 = 1199 / 10,
        world0 = 5\<rparr>
     = Inr \<lparr>population0 = [502, 503], best_ordo = 502, iteration_time0 = 1199 / 10,
            world0 = 7\<rparr>
   \<and> \<not> duree0 stub0 502 \<le> duree0 stub0 501"
  by (simp add: run0_defs)

section \<open>The time budget\<close>

lemma loop_test_Inr:
  assumes "loop_test c ps t0 s = Inr (b, w)"
  shows "\<exists>time_limit. ps ''time_limit'' = Some time_limit \<and>
           b = (fst (time_time c (world s)) - t0 + iteration_time s + 1 < 60 * time_limit)"
    and "w = snd (time_time c (world s))"
  using assms
  by (auto simp: loop_test_def case_prod_beta and_then_eq_Inr getitem_Inr_iff)

lemma loop_step_None:
  "loop_test c ps t0 s = Inr (False, w) \<Longrightarrow> loop_step c fl ps sn inb thr t0 s = None"
  by (simp add: loop_step_def)

lemma memetic_loop0_stops:
  assumes "loop_test0 c t z = (False, wz)"
  shows "memetic_loop0 c fl t z = Some (Inr (z\<lparr>world0 := wz\<rparr>))"
  by (subst memetic_loop0.simps) (simp add: assms)

text \<open>
  C4, as amended. In \<^verbatim>\<open>src/src/memetic.py\<close> the loop test holds exactly when the
  time elapsed since the start, plus the duration of the last generation, plus one
  second, is less than sixty times \<^verbatim>\<open>parameters['time_limit']\<close>; the duration of the
  last generation is 0 before the first one. A generation is started only when the test
  holds. When it fails no generation is started, the loop returns the state it has, and
  \<^verbatim>\<open>memetic_heuristic\<close> returns the history, the best schedule and the restart list
  accumulated so far. In \<^verbatim>\<open>src/memetic.py\<close> the test is that the time elapsed plus
  the duration of the last generation is less than 600 seconds, with no margin and no
  parameter; when it fails the loop returns.
\<close>

theorem time_budget_test:
  "(loop_test c ps t0 s = Inr (b, w) \<longrightarrow>
      (\<exists>time_limit. ps ''time_limit'' = Some time_limit \<and>
         b = (fst (time_time c (world s)) - t0 + iteration_time s + 1 < 60 * time_limit)))
   \<and> (initial_state c fl ps w0 = Inr (thr, s0) \<longrightarrow> iteration_time s0 = 0)
   \<and> (loop_step c fl ps sn inb thr t0 s = Some s' \<longrightarrow>
        (\<exists>w. loop_test c ps t0 s = Inr (True, w)))
   \<and> (loop_test c ps t0 s = Inr (False, w) \<longrightarrow>
        loop_step c fl ps sn inb thr t0 s = None \<and>
        memetic_loop c fl ps sn inb thr t0 s = Some (Inr (s\<lparr>world := w\<rparr>)))
   \<and> (time_time c w1 = (t0, w0) \<longrightarrow> initial_state c fl ps w0 = Inr (thr, s0) \<longrightarrow>
        generations c fl ps (create_swap_neighbors c fl) (create_insert_neighbors c fl)
          thr t0 g s0 = Some s \<longrightarrow>
        loop_test c ps t0 s = Inr (False, w) \<longrightarrow>
        memetic_heuristic c fl ps w1 =
          Some (Inr (list_statistics s, overall_best_scheduling s,
                     iterations_where_restart s)))
   \<and> (loop_test0 c0 t z = (b0, wz) \<longrightarrow>
        b0 = (fst (time_time0 c0 (world0 z)) - t + iteration_time0 z < 600))
   \<and> (loop_test0 c0 t z = (False, wz) \<longrightarrow>
        memetic_loop0 c0 fl0 t z = Some (Inr (z\<lparr>world0 := wz\<rparr>)))"
proof (intro conjI impI)
  assume "loop_test c ps t0 s = Inr (b, w)"
  then show "\<exists>time_limit. ps ''time_limit'' = Some time_limit \<and>
         b = (fst (time_time c (world s)) - t0 + iteration_time s + 1 < 60 * time_limit)"
    by (rule loop_test_Inr(1))
next
  assume "initial_state c fl ps w0 = Inr (thr, s0)"
  then show "iteration_time s0 = 0" by (rule initial_state_Inr(2))
next
  assume "loop_step c fl ps sn inb thr t0 s = Some s'"
  then show "\<exists>w. loop_test c ps t0 s = Inr (True, w)"
    unfolding loop_step_Some by blast
next
  assume "loop_test c ps t0 s = Inr (False, w)"
  then show "loop_step c fl ps sn inb thr t0 s = None" by (rule loop_step_None)
next
  assume l: "loop_test c ps t0 s = Inr (False, w)"
  have "generations c fl ps sn inb thr t0 0 s = Some s" by simp
  from memetic_loop_stops[OF this l]
  show "memetic_loop c fl ps sn inb thr t0 s = Some (Inr (s\<lparr>world := w\<rparr>))" .
next
  assume "time_time c w1 = (t0, w0)" "initial_state c fl ps w0 = Inr (thr, s0)"
    "generations c fl ps (create_swap_neighbors c fl) (create_insert_neighbors c fl)
          thr t0 g s0 = Some s" "loop_test c ps t0 s = Inr (False, w)"
  then show "memetic_heuristic c fl ps w1 =
          Some (Inr (list_statistics s, overall_best_scheduling s,
                     iterations_where_restart s))"
    by (rule memetic_heuristic_stops)
next
  assume "loop_test0 c0 t z = (b0, wz)"
  then show "b0 = (fst (time_time0 c0 (world0 z)) - t + iteration_time0 z < 600)"
    by (auto simp: loop_test0_def case_prod_beta)
next
  assume "loop_test0 c0 t z = (False, wz)"
  then show "memetic_loop0 c0 fl0 t z = Some (Inr (z\<lparr>world0 := wz\<rparr>))"
    by (rule memetic_loop0_stops)
qed

text \<open>
  The test double under a limit of one minute stops after one generation; the one for
  \<^verbatim>\<open>src/memetic.py\<close> stops after its second.
\<close>

theorem time_budget_test_witness:
  "time_time (stub False) 0 = (0, 1)
   \<and> initial_state (stub False) () (stub_parameters 1) 1 =
       Inr ((), \<lparr>population = [500, 501], list_statistics = [(1001 / 2, 500, 501)],
                 overall_best_scheduling = 500, iterations_where_restart = [], index = 0,
                 iteration_time = 0, world = 1\<rparr>)
   \<and> loop_step (stub False) () (stub_parameters 1) () () () 0
       \<lparr>population = [500, 501], list_statistics = [(1001 / 2, 500, 501)],
        overall_best_scheduling = 500, iterations_where_restart = [], index = 0,
        iteration_time = 0, world = 1\<rparr>
     = Some \<lparr>population = [500, 501],
             list_statistics = [(1001 / 2, 500, 501), (1001 / 2, 500, 501)],
             overall_best_scheduling = 500, iterations_where_restart = [], index = 1,
             iteration_time = 30, world = 4\<rparr>
   \<and> generations (stub False) () (stub_parameters 1) () () () 0 1
       \<lparr>population = [500, 501], list_statistics = [(1001 / 2, 500, 501)],
        overall_best_scheduling = 500, iterations_where_restart = [], index = 0,
        iteration_time = 0, world = 1\<rparr>
     = Some \<lparr>population = [500, 501],
             list_statistics = [(1001 / 2, 500, 501), (1001 / 2, 500, 501)],
             overall_best_scheduling = 500, iterations_where_restart = [], index = 1,
             iteration_time = 30, world = 4\<rparr>
   \<and> loop_test (stub False) (stub_parameters 1) 0
       \<lparr>population = [500, 501],
        list_statistics = [(1001 / 2, 500, 501), (1001 / 2, 500, 501)],
        overall_best_scheduling = 500, iterations_where_restart = [], index = 1,
        iteration_time = 30, world = 4\<rparr> = Inr (False, 5)
   \<and> \<not> ((120 :: real) - 0 + 30 + 1 < 60 * 1)
   \<and> memetic_heuristic (stub False) () (stub_parameters 1) 0 =
       Some (Inr ([(1001 / 2, 500, 501), (1001 / 2, 500, 501)], 500, []))
   \<and> loop_test0 stub0 0
       \<lparr>population0 = [502, 503], best_ordo = 502, iteration_time0 = 1199 / 10,
        world0 = 7\<rparr> = (False, 8)
   \<and> memetic_loop0 stub0 () 0
       \<lparr>population0 = [502, 503], best_ordo = 502, iteration_time0 = 1199 / 10,
        world0 = 7\<rparr>
     = Some (Inr \<lparr>population0 = [502, 503], best_ordo = 502, iteration_time0 = 1199 / 10,
                  world0 = 8\<rparr>)"
proof -
  let ?s0 = "\<lparr>population = [500, 501 :: nat], list_statistics = [(1001 / 2, 500, 501)],
        overall_best_scheduling = 500, iterations_where_restart = [], index = 0,
        iteration_time = 0, world = 1 :: nat\<rparr>"
  let ?s1 = "\<lparr>population = [500, 501 :: nat],
        list_statistics = [(1001 / 2, 500, 501), (1001 / 2, 500, 501)],
        overall_best_scheduling = 500, iterations_where_restart = [], index = 1,
        iteration_time = 30, world = 4 :: nat\<rparr>"
  let ?z = "\<lparr>population0 = [502, 503 :: nat], best_ordo = 502,
        iteration_time0 = 1199 / 10, world0 = 7 :: nat\<rparr>"
  have t: "time_time (stub False) 0 = (0, 1)" by (simp add: stub_fields)
  have i: "initial_state (stub False) () (stub_parameters 1) 1 = Inr ((), ?s0)"
    by (rule init_stub)
  have st: "loop_step (stub False) () (stub_parameters 1) () () () 0 ?s0 = Some ?s1"
    by (simp add: run_defs)
  have g: "generations (stub False) () (stub_parameters 1)
             (create_swap_neighbors (stub False) ()) (create_insert_neighbors (stub False) ())
             () 0 1 ?s0 = Some ?s1"
    by (simp add: run_defs)
  have l: "loop_test (stub False) (stub_parameters 1) 0 ?s1 = Inr (False, 5)"
    by (simp add: run_defs)
  have l0: "loop_test0 stub0 0 ?z = (False, 8)" by (simp add: run0_defs)
  note th = time_budget_test[of "stub False" "stub_parameters 1" 0 ?s1 False 5 "()" 1 "()" ?s0
      "()" "()" _ 0 1 stub0 0 ?z False 8 "()"]
  from th t i g l
  have m: "memetic_heuristic (stub False) () (stub_parameters 1) 0 =
       Some (Inr (list_statistics ?s1, overall_best_scheduling ?s1,
                  iterations_where_restart ?s1))" by blast
  from th l0
  have m0: "memetic_loop0 stub0 () 0 ?z = Some (Inr (?z\<lparr>world0 := 8\<rparr>))" by blast
  from t i st g l l0 m m0 show ?thesis by simp
qed

text \<open>
  C4 as stated fails for \<^verbatim>\<open>src/memetic.py\<close>: after the first generation of the test
  double, 479.6 seconds have elapsed and the generation took 119.9. The sum, 599.5, is
  less than 600, so a second generation is started, though 599.5 + 1 is not.
\<close>

theorem loop_test0_no_margin:
  "generation0 stub0 ()
       \<lparr>population0 = [500, 501], best_ordo = 0, iteration_time0 = 0, world0 = 2\<rparr>
     = Inr \<lparr>population0 = [501, 502], best_ordo = 501, iteration_time0 = 1199 / 10,
            world0 = 4\<rparr>
   \<and> time_time0 stub0 4 = (2398 / 5, 5)
   \<and> loop_test0 stub0 0
       \<lparr>population0 = [501, 502], best_ordo = 501, iteration_time0 = 1199 / 10,
        world0 = 4\<rparr> = (True, 5)
   \<and> \<not> ((2398 / 5 :: real) - 0 + 1199 / 10 + 1 < 60 * 10)
   \<and> memetic_heuristic0 stub0 () 0 = Some (Inr 502)"
proof -
  have 1: "generation0 stub0 ()
       \<lparr>population0 = [500, 501], best_ordo = 0, iteration_time0 = 0, world0 = 2\<rparr>
     = Inr \<lparr>population0 = [501, 502], best_ordo = 501, iteration_time0 = 1199 / 10,
            world0 = 4\<rparr>" by (simp add: run0_defs)
  have 2: "time_time0 stub0 4 = (2398 / 5, 5)" by (simp add: stub0_fields)
  have 3: "loop_test0 stub0 0
       \<lparr>population0 = [501, 502], best_ordo = 501, iteration_time0 = 1199 / 10,
        world0 = 4\<rparr> = (True, 5)" by (simp add: run0_defs)
  have 4: "\<not> ((2398 / 5 :: real) - 0 + 1199 / 10 + 1 < 60 * 10)" by simp
  have a: "loop_test0 stub0 0
       \<lparr>population0 = [500, 501], best_ordo = 0, iteration_time0 = 0, world0 = 1\<rparr>
       = (True, 2)" by (simp add: run0_defs)
  have b: "generation0 stub0 ()
       \<lparr>population0 = [501, 502], best_ordo = 501, iteration_time0 = 1199 / 10,
        world0 = 5\<rparr>
     = Inr \<lparr>population0 = [502, 503], best_ordo = 502, iteration_time0 = 1199 / 10,
            world0 = 7\<rparr>" by (simp add: run0_defs)
  have c: "loop_test0 stub0 0
       \<lparr>population0 = [502, 503], best_ordo = 502, iteration_time0 = 1199 / 10,
        world0 = 7\<rparr> = (False, 8)" by (simp add: run0_defs)
  have "memetic_loop0 stub0 () 0
       \<lparr>population0 = [500, 501], best_ordo = 0, iteration_time0 = 0, world0 = 1\<rparr>
     = Some (Inr \<lparr>population0 = [502, 503], best_ordo = 502, iteration_time0 = 1199 / 10,
                  world0 = 8\<rparr>)"
    apply (subst memetic_loop0.simps)
    apply (simp only: a split_conv if_True loop_state0.simps 1 sum.case)
    apply (subst memetic_loop0.simps)
    apply (simp only: 3 split_conv if_True loop_state0.simps b sum.case)
    apply (subst memetic_loop0.simps)
    apply (simp only: c split_conv if_False loop_state0.simps)
    done
  then have 5: "memetic_heuristic0 stub0 () 0 = Some (Inr 502)"
    by (simp add: memetic_heuristic0_def stub0_fields)
  from 1 2 3 4 5 show ?thesis by blast
qed

section \<open>Parameters that are missing or out of range\<close>

lemma memetic_heuristic_initial_error:
  "initial_state c fl ps (snd (time_time c w)) = Inl e \<Longrightarrow>
     memetic_heuristic c fl ps w = Some (Inl e)"
  by (simp add: memetic_heuristic_def case_prod_beta Let_def)

text \<open>
  C8, as amended. \<^verbatim>\<open>memetic_heuristic\<close> checks no parameter. A missing key raises
  \<^verbatim>\<open>KeyError\<close> where it is first read: \<^verbatim>\<open>'pop_init_size'\<close> before the initial
  population is built, \<^verbatim>\<open>'time_limit'\<close> at the first loop test, before any generation.
  A value out of range raises nothing: with a time limit that is zero or negative, and a
  clock that does not run backwards, the run returns the statistics of the initial
  population, its best schedule and no restart, and executes no generation.
\<close>

theorem no_configuration_check:
  "(ps ''pop_init_size'' = None \<longrightarrow>
      memetic_heuristic c fl ps w = Some (Inl (KeyError ''pop_init_size'')))
   \<and> (initial_state c fl ps (snd (time_time c w)) = Inr (thr, s0) \<longrightarrow>
        ps ''time_limit'' = None \<longrightarrow>
        memetic_heuristic c fl ps w = Some (Inl (KeyError ''time_limit'')))
   \<and> (initial_state c fl ps (snd (time_time c w)) = Inr (thr, s0) \<longrightarrow>
        ps ''time_limit'' = Some time_limit \<longrightarrow> time_limit \<le> 0 \<longrightarrow>
        fst (time_time c w) \<le> fst (time_time c (world s0)) \<longrightarrow>
        memetic_heuristic c fl ps w =
          Some (Inr ([population_statistics c (population s0)],
                     overall_best_scheduling s0, [])))"
proof (intro conjI impI)
  assume "ps ''pop_init_size'' = None"
  then have "initial_state c fl ps (snd (time_time c w)) = Inl (KeyError ''pop_init_size'')"
    by (simp add: initial_state_def getitem_None)
  then show "memetic_heuristic c fl ps w = Some (Inl (KeyError ''pop_init_size''))"
    by (rule memetic_heuristic_initial_error)
next
  assume i: "initial_state c fl ps (snd (time_time c w)) = Inr (thr, s0)"
    and n: "ps ''time_limit'' = None"
  have l: "loop_test c ps (fst (time_time c w)) s0 = Inl (KeyError ''time_limit'')"
    using n by (simp add: loop_test_def case_prod_beta getitem_def)
  have "memetic_loop c fl ps (create_swap_neighbors c fl) (create_insert_neighbors c fl) thr
          (fst (time_time c w)) s0 = Some (Inl (KeyError ''time_limit''))"
    by (subst memetic_loop.simps) (simp add: l)
  then show "memetic_heuristic c fl ps w = Some (Inl (KeyError ''time_limit''))"
    by (simp add: memetic_heuristic_def case_prod_beta Let_def i)
next
  assume i: "initial_state c fl ps (snd (time_time c w)) = Inr (thr, s0)"
    and tl: "ps ''time_limit'' = Some time_limit" and neg: "time_limit \<le> 0"
    and clock: "fst (time_time c w) \<le> fst (time_time c (world s0))"
  note f = initial_state_Inr[OF i]
  have "60 * time_limit \<le> 0" using neg by simp
  then have "\<not> (fst (time_time c (world s0)) - fst (time_time c w) + iteration_time s0 + 1
                 < 60 * time_limit)"
    using clock f(2) by simp
  then have l: "loop_test c ps (fst (time_time c w)) s0
                  = Inr (False, snd (time_time c (world s0)))"
    using tl by (simp add: loop_test_def case_prod_beta getitem_def)
  have t: "time_time c w = (fst (time_time c w), snd (time_time c w))" by simp
  have g: "generations c fl ps (create_swap_neighbors c fl) (create_insert_neighbors c fl)
             thr (fst (time_time c w)) 0 s0 = Some s0" by simp
  from memetic_heuristic_stops[OF t i g l] f(3,4)
  show "memetic_heuristic c fl ps w =
          Some (Inr ([population_statistics c (population s0)],
                     overall_best_scheduling s0, []))" by simp
qed

lemma getitem_without_time_limit:
  "key \<noteq> ''time_limit'' \<Longrightarrow> getitem (ps(''time_limit'' := None)) key = getitem ps key"
  by (simp add: getitem_def)

text \<open>
  The test double with no parameter at all, with no time limit, and with a time limit of
  minus one minute.
\<close>

theorem no_configuration_check_witness:
  "(Map.empty :: parameters) ''pop_init_size'' = None
   \<and> memetic_heuristic (stub False) () Map.empty 0 = Some (Inl (KeyError ''pop_init_size''))
   \<and> initial_state (stub False) () ((stub_parameters 1)(''time_limit'' := None))
         (snd (time_time (stub False) 0))
       = Inr ((), \<lparr>population = [500, 501], list_statistics = [(1001 / 2, 500, 501)],
                   overall_best_scheduling = 500, iterations_where_restart = [], index = 0,
                   iteration_time = 0, world = 1\<rparr>)
   \<and> ((stub_parameters 1)(''time_limit'' := None)) ''time_limit'' = None
   \<and> memetic_heuristic (stub False) () ((stub_parameters 1)(''time_limit'' := None)) 0
       = Some (Inl (KeyError ''time_limit''))
   \<and> initial_state (stub False) () (stub_parameters (- 1)) (snd (time_time (stub False) 0))
       = Inr ((), \<lparr>population = [500, 501], list_statistics = [(1001 / 2, 500, 501)],
                   overall_best_scheduling = 500, iterations_where_restart = [], index = 0,
                   iteration_time = 0, world = 1\<rparr>)
   \<and> stub_parameters (- 1) ''time_limit'' = Some (- 1) \<and> (- 1 :: real) \<le> 0
   \<and> fst (time_time (stub False) 0) \<le> fst (time_time (stub False) 1)
   \<and> memetic_heuristic (stub False) () (stub_parameters (- 1)) 0
       = Some (Inr ([(1001 / 2, 500, 501)], 500, []))"
proof -
  let ?s0 = "\<lparr>population = [500, 501 :: nat], list_statistics = [(1001 / 2, 500, 501)],
        overall_best_scheduling = 500, iterations_where_restart = [], index = 0,
        iteration_time = 0, world = 1 :: nat\<rparr>"
  let ?ps = "(stub_parameters 1)(''time_limit'' := None)"
  have w: "snd (time_time (stub False) 0) = 1" by (simp add: stub_fields)
  have e: "(Map.empty :: parameters) ''pop_init_size'' = None" by simp
  have i1: "initial_state (stub False) () ?ps (snd (time_time (stub False) 0)) = Inr ((), ?s0)"
    unfolding w
    by (simp add: initial_state_def getitem_without_time_limit getitem_stub initial_pop_stub
          stub_fields py_min_key_def)
  have n: "?ps ''time_limit'' = None" by simp
  have i2: "initial_state (stub False) () (stub_parameters (- 1)) (snd (time_time (stub False) 0))
              = Inr ((), ?s0)"
    unfolding w by (rule init_stub)
  have tl: "stub_parameters (- 1) ''time_limit'' = Some (- 1)"
    by (simp add: stub_parameters_def)
  have neg: "(- 1 :: real) \<le> 0" by simp
  have ck: "fst (time_time (stub False) 0) \<le> fst (time_time (stub False) (world ?s0))"
    by (simp add: stub_fields)
  from no_configuration_check[of Map.empty "stub False" "()" 0] e
  have a: "memetic_heuristic (stub False) () Map.empty 0 = Some (Inl (KeyError ''pop_init_size''))"
    by blast
  from no_configuration_check[of ?ps "stub False" "()" 0 "()" ?s0] i1 n
  have b: "memetic_heuristic (stub False) () ?ps 0 = Some (Inl (KeyError ''time_limit''))"
    by blast
  from no_configuration_check[of "stub_parameters (- 1)" "stub False" "()" 0 "()" ?s0 "- 1"]
    i2 tl neg ck
  have c: "memetic_heuristic (stub False) () (stub_parameters (- 1)) 0 =
          Some (Inr ([population_statistics (stub False) (population ?s0)],
                     overall_best_scheduling ?s0, []))" by blast
  have c': "memetic_heuristic (stub False) () (stub_parameters (- 1)) 0
       = Some (Inr ([(1001 / 2, 500, 501)], 500, []))"
    using c by (simp add: stub_fields)
  have ck': "fst (time_time (stub False) 0) \<le> fst (time_time (stub False) 1)"
    using ck by simp
  from e a i1 n b i2 tl neg ck' c' show ?thesis by blast
qed

text \<open>
  C8 as stated fails: with a time limit of minus one minute the run of the test double
  is no error, it returns the initial result.
\<close>

theorem negative_time_limit_returns:
  "stub_parameters (- 1) ''time_limit'' = Some (- 1)
   \<and> memetic_heuristic (stub False) () (stub_parameters (- 1)) 0
       = Some (Inr ([(1001 / 2, 500, 501)], 500, []))"
proof -
  let ?s0 = "\<lparr>population = [500, 501 :: nat], list_statistics = [(1001 / 2, 500, 501)],
        overall_best_scheduling = 500, iterations_where_restart = [], index = 0,
        iteration_time = 0, world = 1 :: nat\<rparr>"
  have tl: "stub_parameters (- 1) ''time_limit'' = Some (- 1)"
    by (simp add: stub_parameters_def)
  have t: "time_time (stub False) 0 = (0, 1)" by (simp add: stub_fields)
  have i: "initial_state (stub False) () (stub_parameters (- 1)) 1 = Inr ((), ?s0)"
    by (rule init_stub)
  have g: "generations (stub False) () (stub_parameters (- 1))
             (create_swap_neighbors (stub False) ()) (create_insert_neighbors (stub False) ())
             () 0 0 ?s0 = Some ?s0" by simp
  have l: "loop_test (stub False) (stub_parameters (- 1)) 0 ?s0 = Inr (False, 2)"
    by (simp add: run_defs)
  from memetic_heuristic_stops[OF t i g l] tl show ?thesis by simp
qed

end
